theory Spec2Isabelle
  imports Complex_Main "HOL-Library.Multiset"
begin

section \<open>Common conventions\<close>

text \<open>
  The kinematics code of \<^verbatim>\<open>wmpl/Trajectory/GuralTrajectory.py\<close> and the MILIG loader of
  \<^verbatim>\<open>wmpl/Formats/Milig.py\<close> are embedded as HOL functions. Python floats are modelled
  as reals (rounding is not represented), numpy arrays as lists, a raised exception as the
  left summand of a result.
\<close>

datatype pyerror =
    ValueError
  | IndexError
  | TypeError
  | UnboundLocalError
  | AttributeError
  | RuntimeError
  | OSError
  | DegenerateGeometry
  | InvalidConvention

text \<open>
  \<open>DegenerateGeometry\<close> and \<open>InvalidConvention\<close> are the names of the specification's error
  taxonomy; no statement under \<^verbatim>\<open>src/\<close> raises either of them.
\<close>

text \<open>Python's and numpy's \<^verbatim>\<open>%\<close> on floats, for a positive modulus: the floored remainder.\<close>

definition py_mod :: "real \<Rightarrow> real \<Rightarrow> real" where
  "py_mod x m = x - m * of_int \<lfloor>x / m\<rfloor>"

section \<open>Measurement conventions (\<^verbatim>\<open>GuralTrajectory.calcVelocity\<close>, lines 814--861)\<close>

text \<open>
  The \<^verbatim>\<open>if/elif\<close> chain of lines 823--849. It has no \<^verbatim>\<open>else\<close>: for any other code the
  local variables \<^verbatim>\<open>azim_data\<close>, \<^verbatim>\<open>elev_data\<close> keep the binding they had before
  (\<open>None\<close> stands for an unbound local). \<open>raDec2AltAz_vect\<close> is the function of
  \<^verbatim>\<open>wmpl.Utils.TrajConversions\<close>, taken as a parameter.
\<close>

definition meas_azim_elev ::
  "(real list \<Rightarrow> real list \<Rightarrow> real \<Rightarrow> real \<Rightarrow> real \<Rightarrow> real list \<times> real list) \<Rightarrow>
   int \<Rightarrow> real \<Rightarrow> real \<Rightarrow> real \<Rightarrow> real list \<Rightarrow> real list \<Rightarrow>
   (real list \<times> real list) option \<Rightarrow> (real list \<times> real list) option" where
  "meas_azim_elev raDec2AltAz_vect meastype jdt_ref lat_s lon_s meas1 meas2 bound =
     (if meastype = 1 then Some (raDec2AltAz_vect meas1 meas2 jdt_ref lat_s lon_s)
      else if meastype = 2 then Some (meas1, meas2)
      else if meastype = 3 then
        Some (map (\<lambda>a. py_mod (a + pi) (2 * pi)) meas1, map (\<lambda>z. pi / 2 - z) meas2)
      else if meastype = 4 then
        Some (map (\<lambda>a. py_mod (pi / 2 - a) (2 * pi)) meas1, map (\<lambda>z. pi / 2 - z) meas2)
      else bound)"

text \<open>
  The loop over the stations (lines 820--861): \<^verbatim>\<open>zip\<close> of the five per-station sequences,
  the convention chain, then the use of \<^verbatim>\<open>azim_data\<close> and \<^verbatim>\<open>elev_data\<close> in the call of
  \<open>altAz2RADec_vect\<close>, where Python raises \<^verbatim>\<open>UnboundLocalError\<close> for a local that was never
  assigned. The result holds, per station, the pair appended to \<^verbatim>\<open>ra_dec_los_cameras\<close> and
  the array appended to \<^verbatim>\<open>meas_eci_los_cameras\<close>.
\<close>

fun los_loop ::
  "(real list \<Rightarrow> real list \<Rightarrow> real \<Rightarrow> real \<Rightarrow> real \<Rightarrow> real list \<times> real list) \<Rightarrow>
   (real list \<Rightarrow> real list \<Rightarrow> real list \<Rightarrow> real \<Rightarrow> real \<Rightarrow> real list \<times> real list) \<Rightarrow>
   (real list \<Rightarrow> real list \<Rightarrow> 'e) \<Rightarrow>
   int \<Rightarrow> real \<Rightarrow> (real list \<times> real list) option \<Rightarrow>
   (real list \<times> real list \<times> real list \<times> real \<times> real) list \<Rightarrow>
   pyerror + ((real list \<times> real list) \<times> 'e) list" where
  "los_loop raDec2AltAz_vect altAz2RADec_vect raDec2ECI meastype jdt_ref bound [] = Inr []"
| "los_loop raDec2AltAz_vect altAz2RADec_vect raDec2ECI meastype jdt_ref bound
     ((jd_data, meas1, meas2, lat_s, lon_s) # rest) =
     (case meas_azim_elev raDec2AltAz_vect meastype jdt_ref lat_s lon_s meas1 meas2 bound of
        None \<Rightarrow> Inl UnboundLocalError
      | Some (azim_data, elev_data) \<Rightarrow>
          (let (ra_data_los, dec_data_los) =
                 altAz2RADec_vect azim_data elev_data jd_data lat_s lon_s;
               stat_los_eci = raDec2ECI ra_data_los dec_data_los
           in case los_loop raDec2AltAz_vect altAz2RADec_vect raDec2ECI meastype jdt_ref
                     (Some (azim_data, elev_data)) rest of
                Inl e \<Rightarrow> Inl e
              | Inr out \<Rightarrow> Inr (((ra_data_los, dec_data_los), stat_los_eci) # out)))"

definition calc_los ::
  "(real list \<Rightarrow> real list \<Rightarrow> real \<Rightarrow> real \<Rightarrow> real \<Rightarrow> real list \<times> real list) \<Rightarrow>
   (real list \<Rightarrow> real list \<Rightarrow> real list \<Rightarrow> real \<Rightarrow> real \<Rightarrow> real list \<times> real list) \<Rightarrow>
   (real list \<Rightarrow> real list \<Rightarrow> 'e) \<Rightarrow>
   int \<Rightarrow> real \<Rightarrow> real list list \<Rightarrow> real list list \<Rightarrow> real list list \<Rightarrow>
   real list \<Rightarrow> real list \<Rightarrow> pyerror + ((real list \<times> real list) \<times> 'e) list" where
  "calc_los raDec2AltAz_vect altAz2RADec_vect raDec2ECI meastype jdt_ref
     JD_data_cameras meas1 meas2 camera_lat camera_lon =
     los_loop raDec2AltAz_vect altAz2RADec_vect raDec2ECI meastype jdt_ref None
       (zip JD_data_cameras (zip meas1 (zip meas2 (zip camera_lat camera_lon))))"

section \<open>Projection and kinematics (\<^verbatim>\<open>GuralTrajectory.calcVelocity\<close>, lines 867--951)\<close>

type_synonym vec3 = "real \<times> real \<times> real"

definition vadd :: "vec3 \<Rightarrow> vec3 \<Rightarrow> vec3" where
  "vadd a b = (case a of (a1, a2, a3) \<Rightarrow> case b of (b1, b2, b3) \<Rightarrow> (a1 + b1, a2 + b2, a3 + b3))"

definition vsub :: "vec3 \<Rightarrow> vec3 \<Rightarrow> vec3" where
  "vsub a b = (case a of (a1, a2, a3) \<Rightarrow> case b of (b1, b2, b3) \<Rightarrow> (a1 - b1, a2 - b2, a3 - b3))"

definition vscale :: "real \<Rightarrow> vec3 \<Rightarrow> vec3" where
  "vscale k a = (case a of (a1, a2, a3) \<Rightarrow> (k * a1, k * a2, k * a3))"

definition vdot :: "vec3 \<Rightarrow> vec3 \<Rightarrow> real" where
  "vdot a b = (case a of (a1, a2, a3) \<Rightarrow> case b of (b1, b2, b3) \<Rightarrow> a1 * b1 + a2 * b2 + a3 * b3)"

text \<open>
  Modelled from the spec: \<^verbatim>\<open>vectMag\<close> of \<^verbatim>\<open>wmpl.Utils.Math\<close>, which is not among the
  source files. The specification writes it \<open>|CPA[0] \<minus> CPA[i]|\<close>, the magnitude of a
  displacement: the Euclidean norm.
\<close>

definition vectMag :: "vec3 \<Rightarrow> real" where
  "vectMag a = sqrt (vdot a a)"

text \<open>
  Modelled from the spec: \<^verbatim>\<open>findClosestPoints\<close> of \<^verbatim>\<open>wmpl.Utils.Math\<close>, which is not
  among the source files. Section 4.3 of the specification: the two closest points of the
  line through \<open>P\<close> with direction \<open>u\<close> and the line through \<open>Q\<close> with direction \<open>v\<close> (the
  classic two-line minimum-distance problem), with a guard of a configurable epsilon on the
  near-singular denominator, failing with \<open>DegenerateGeometry\<close> when the directions are
  parallel within that tolerance. The result is the point on the first line, the point on
  the second line, and their distance, in the order in which the caller unpacks them. The
  caller passes no offset constraint, so none is modelled.
\<close>

definition findClosestPoints ::
  "real \<Rightarrow> vec3 \<Rightarrow> vec3 \<Rightarrow> vec3 \<Rightarrow> vec3 \<Rightarrow> pyerror + (vec3 \<times> vec3 \<times> real)" where
  "findClosestPoints tol P u Q v =
     (let w = vsub P Q;
          a = vdot u u; b = vdot u v; c = vdot v v; d = vdot u w; e = vdot v w;
          denom = a * c - b * b
      in if \<bar>denom\<bar> \<le> tol then Inl DegenerateGeometry
         else (let s = (b * e - c * d) / denom;
                   t = (a * e - b * d) / denom;
                   S = vadd P (vscale s u);
                   T = vadd Q (vscale t v)
               in Inr (S, T, vectMag (vsub S T))))"

text \<open>
  Lines 880--895, the inner loop over one station: every line of sight is projected on the
  radiant line, and the running pair \<^verbatim>\<open>(max_ht, beg_cpa)\<close> keeps the projection farthest
  from the Earth's centre (\<open>None\<close> is Python's \<^verbatim>\<open>None\<close>, the initial value of
  \<^verbatim>\<open>beg_cpa\<close>). Nothing catches an exception of \<^verbatim>\<open>findClosestPoints\<close>.
\<close>

fun project_station ::
  "real \<Rightarrow> vec3 \<Rightarrow> vec3 \<Rightarrow> real \<times> vec3 option \<Rightarrow> (vec3 \<times> vec3) list \<Rightarrow>
   pyerror + (vec3 list \<times> (real \<times> vec3 option))" where
  "project_station tol state_vect radiant_eci st [] = Inr ([], st)"
| "project_station tol state_vect radiant_eci st ((stat, meas) # rest) =
     (case findClosestPoints tol stat meas state_vect radiant_eci of
        Inl e \<Rightarrow> Inl e
      | Inr (obs_cpa, rad_cpa, d_cpa) \<Rightarrow>
          (let ht_center = vectMag rad_cpa;
               st' = (if ht_center > fst st then (ht_center, Some rad_cpa) else st)
           in case project_station tol state_vect radiant_eci st' rest of
                Inl e \<Rightarrow> Inl e
              | Inr (rad_cpa_list, st'') \<Rightarrow> Inr (rad_cpa # rad_cpa_list, st'')))"

text \<open>Lines 871--897, the outer loop over the stations.\<close>

fun project_all ::
  "real \<Rightarrow> vec3 \<Rightarrow> vec3 \<Rightarrow> real \<times> vec3 option \<Rightarrow> (vec3 list \<times> vec3 list) list \<Rightarrow>
   pyerror + (vec3 list list \<times> (real \<times> vec3 option))" where
  "project_all tol state_vect radiant_eci st [] = Inr ([], st)"
| "project_all tol state_vect radiant_eci st ((stat_eci_los, meas_eci_los) # rest) =
     (case project_station tol state_vect radiant_eci st (zip stat_eci_los meas_eci_los) of
        Inl e \<Rightarrow> Inl e
      | Inr (rad_cpa_list, st') \<Rightarrow>
          (case project_all tol state_vect radiant_eci st' rest of
             Inl e \<Rightarrow> Inl e
           | Inr (rad_cpa_all_stations, st'') \<Rightarrow> Inr (rad_cpa_list # rad_cpa_all_stations, st'')))"

definition calc_projections ::
  "real \<Rightarrow> vec3 \<Rightarrow> vec3 \<Rightarrow> vec3 list list \<Rightarrow> vec3 list list \<Rightarrow>
   pyerror + (vec3 list list \<times> vec3 option)" where
  "calc_projections tol state_vect radiant_eci stations_eci_cameras meas_eci_los_cameras =
     (case project_all tol state_vect radiant_eci (0, None)
             (zip stations_eci_cameras meas_eci_los_cameras) of
        Inl e \<Rightarrow> Inl e
      | Inr (rad_cpa_all_stations, (max_ht, beg_cpa)) \<Rightarrow> Inr (rad_cpa_all_stations, beg_cpa))"

text \<open>
  Lines 909--921, the loop over the projections of one station. \<^verbatim>\<open>ref_point\<close> is the first
  projection of the station; \<^verbatim>\<open>beg_cpa - rad_cpa\<close> raises \<^verbatim>\<open>TypeError\<close> when \<^verbatim>\<open>beg_cpa\<close> is
  still \<^verbatim>\<open>None\<close>.
\<close>

fun cpa_distances :: "vec3 \<Rightarrow> vec3 option \<Rightarrow> vec3 list \<Rightarrow> pyerror + (real list \<times> real list)" where
  "cpa_distances ref_point beg_cpa [] = Inr ([], [])"
| "cpa_distances ref_point beg_cpa (rad_cpa # rest) =
     (let dist_ref = vectMag (vsub ref_point rad_cpa)
      in case beg_cpa of
           None \<Rightarrow> Inl TypeError
         | Some b \<Rightarrow>
             (let beg_dist = vectMag (vsub b rad_cpa)
              in case cpa_distances ref_point beg_cpa rest of
                   Inl e \<Rightarrow> Inl e
                 | Inr (radiant_distances, state_vector_distance) \<Rightarrow>
                     Inr (dist_ref # radiant_distances, beg_dist # state_vector_distance)))"

definition station_distances :: "vec3 option \<Rightarrow> vec3 list \<Rightarrow> pyerror + (real list \<times> real list)" where
  "station_distances beg_cpa rad_cpa_list =
     (case rad_cpa_list of
        [] \<Rightarrow> Inr ([], [])
      | ref_point # rest \<Rightarrow> cpa_distances ref_point beg_cpa rad_cpa_list)"

text \<open>
  numpy's elementwise binary operations on one-dimensional arrays: equal shapes combine
  pointwise, a one-element array is broadcast, any other pair of shapes raises
  \<^verbatim>\<open>ValueError\<close>.
\<close>

definition np_broadcast :: "('a \<Rightarrow> 'b \<Rightarrow> 'c) \<Rightarrow> 'a list \<Rightarrow> 'b list \<Rightarrow> pyerror + 'c list" where
  "np_broadcast f xs ys =
     (if length xs = length ys then Inr (map2 f xs ys)
      else if length xs = 1 then Inr (map (f (hd xs)) ys)
      else if length ys = 1 then Inr (map (\<lambda>x. f x (hd ys)) xs)
      else Inl ValueError)"

text \<open>
  Division of numpy floats raises nothing: a zero divisor gives \<^verbatim>\<open>inf\<close> or \<^verbatim>\<open>nan\<close> with a
  warning. \<open>None\<close> stands for that non-finite result.
\<close>

definition np_div :: "real \<Rightarrow> real \<Rightarrow> real option" where
  "np_div a b = (if b = 0 then None else Some (a / b))"

text \<open>\<^verbatim>\<open>np.finfo(np.float64).eps\<close>.\<close>

definition machine_eps :: real where
  "machine_eps = 1 / 2 ^ 52"

text \<open>Lines 933--949: point-to-point differences, the guard on zero time steps, the quotient.\<close>

definition station_velocity :: "real list \<Rightarrow> real list \<Rightarrow> pyerror + real option list" where
  "station_velocity length_v time_data =
     (let dists_shifted = butlast (0 # length_v);
          dists_diffs = map2 (-) length_v dists_shifted;
          time_shifted = butlast (0 # time_data);
          time_diffs = map2 (-) time_data time_shifted;
          time_diffs = map (\<lambda>d. if d = 0 then machine_eps else d) time_diffs
      in np_broadcast np_div dists_diffs time_diffs)"

text \<open>
  Lines 901--951, the loop over the stations: for station \<^verbatim>\<open>kmeas\<close> the triple appended to
  \<^verbatim>\<open>lengths\<close>, \<^verbatim>\<open>state_vector_distances\<close> and \<^verbatim>\<open>velocities\<close>.
\<close>

definition station_kinematics ::
  "vec3 option \<Rightarrow> real list \<Rightarrow> vec3 list \<Rightarrow> pyerror + (real list \<times> real list \<times> real option list)" where
  "station_kinematics beg_cpa time_data rad_cpa_list =
     (case station_distances beg_cpa rad_cpa_list of
        Inl e \<Rightarrow> Inl e
      | Inr (length_v, state_vector_distance) \<Rightarrow>
          (case station_velocity length_v time_data of
             Inl e \<Rightarrow> Inl e
           | Inr velocity \<Rightarrow> Inr (length_v, state_vector_distance, velocity)))"

fun kinematics_loop ::
  "vec3 option \<Rightarrow> real list list \<Rightarrow> nat \<Rightarrow> vec3 list list \<Rightarrow>
   pyerror + (real list \<times> real list \<times> real option list) list" where
  "kinematics_loop beg_cpa times_v kmeas [] = Inr []"
| "kinematics_loop beg_cpa times_v kmeas (rad_cpa_list # rest) =
     (if kmeas \<ge> length times_v then Inl IndexError
      else case station_kinematics beg_cpa (times_v ! kmeas) rad_cpa_list of
             Inl e \<Rightarrow> Inl e
           | Inr k \<Rightarrow>
               (case kinematics_loop beg_cpa times_v (Suc kmeas) rest of
                  Inl e \<Rightarrow> Inl e
                | Inr ks \<Rightarrow> Inr (k # ks)))"

text \<open>
  \<^verbatim>\<open>GuralTrajectory.calcAverages\<close>, lines 1062--1066: the average velocity of one station.
  Indexing an empty array raises \<^verbatim>\<open>IndexError\<close>.
\<close>

definition station_v_avg :: "real list \<Rightarrow> real list \<Rightarrow> pyerror + real option" where
  "station_v_avg length_v time_data =
     (if length_v = [] \<or> time_data = [] then Inl IndexError
      else Inr (np_div (last length_v - hd length_v) (last time_data - hd time_data)))"

section \<open>Lag (\<^verbatim>\<open>fitLagIntercept\<close>, \<^verbatim>\<open>GuralTrajectory.calcLag\<close>)\<close>

text \<open>
  Modelled from the spec: \<^verbatim>\<open>lineFunc\<close> of \<^verbatim>\<open>wmpl.Utils.Math\<close>, which is not among the
  source files. The specification writes the line as \<open>v_begin \<cdot> t[i] + intercept\<close>; the
  callers pass the slope before the intercept.
\<close>

definition lineFunc :: "real \<Rightarrow> real \<Rightarrow> real \<Rightarrow> real" where
  "lineFunc x m k = m * x + k"

text \<open>
  Lines 347--355 of \<^verbatim>\<open>fitLagIntercept\<close>: the points handed to the fit.
  \<^verbatim>\<open>int(0.25*len(time))\<close> is the integer quotient by 4 (the product with 0.25 is exact).
\<close>

definition fitLagIntercept_window :: "real list \<Rightarrow> real list \<Rightarrow> real list \<times> real list" where
  "fitLagIntercept_window time_v length_v =
     (let quart_size = length time_v div 4;
          quart_size = (if quart_size < 4 then length time_v else quart_size);
          quart_length = take quart_size length_v;
          quart_time = take quart_size time_v
      in (quart_time, quart_length))"

text \<open>
  Lines 357--361. \<open>curve_fit\<close> stands for \<^verbatim>\<open>scipy.optimize.curve_fit\<close> on a model with one
  free parameter: it takes the model, the abscissae, the ordinates and the initial estimate,
  and returns the fitted parameter or raises.
\<close>

definition fitLagIntercept ::
  "((real \<Rightarrow> real \<Rightarrow> real) \<Rightarrow> real list \<Rightarrow> real list \<Rightarrow> real \<Rightarrow> pyerror + real) \<Rightarrow>
   real list \<Rightarrow> real list \<Rightarrow> real \<Rightarrow> real \<Rightarrow> pyerror + (real \<times> real)" where
  "fitLagIntercept curve_fit time_v length_v v_init initial_intercept =
     (case fitLagIntercept_window time_v length_v of
        (quart_time, quart_length) \<Rightarrow>
          (case curve_fit (\<lambda>x intercept. lineFunc x v_init intercept)
                  quart_time quart_length initial_intercept of
             Inl e \<Rightarrow> Inl e
           | Inr lag_intercept \<Rightarrow> Inr (v_init, lag_intercept)))"

text \<open>The body of the loop of \<^verbatim>\<open>calcLag\<close> (lines 1040--1046) for one station.\<close>

definition station_lag ::
  "((real \<Rightarrow> real \<Rightarrow> real) \<Rightarrow> real list \<Rightarrow> real list \<Rightarrow> real \<Rightarrow> pyerror + real) \<Rightarrow>
   real \<Rightarrow> real list \<Rightarrow> real list \<Rightarrow> pyerror + real list" where
  "station_lag curve_fit vbegin time_data length_v =
     (case fitLagIntercept curve_fit time_data length_v (vbegin * 1000) 0 of
        Inl e \<Rightarrow> Inl e
      | Inr (m, k) \<Rightarrow> np_broadcast (-) length_v (map (\<lambda>x. lineFunc x m k) time_data))"

fun calcLag_loop ::
  "((real \<Rightarrow> real \<Rightarrow> real) \<Rightarrow> real list \<Rightarrow> real list \<Rightarrow> real \<Rightarrow> pyerror + real) \<Rightarrow>
   real \<Rightarrow> (real list \<times> real list) list \<Rightarrow> pyerror + real list list" where
  "calcLag_loop curve_fit vbegin [] = Inr []"
| "calcLag_loop curve_fit vbegin ((time_data, length_v) # rest) =
     (case station_lag curve_fit vbegin time_data length_v of
        Inl e \<Rightarrow> Inl e
      | Inr lag \<Rightarrow>
          (case calcLag_loop curve_fit vbegin rest of
             Inl e \<Rightarrow> Inl e
           | Inr lags \<Rightarrow> Inr (lag # lags)))"

definition calcLag ::
  "((real \<Rightarrow> real \<Rightarrow> real) \<Rightarrow> real list \<Rightarrow> real list \<Rightarrow> real \<Rightarrow> pyerror + real) \<Rightarrow>
   real \<Rightarrow> real list list \<Rightarrow> real list list \<Rightarrow> pyerror + real list list" where
  "calcLag curve_fit vbegin times_v lengths = calcLag_loop curve_fit vbegin (zip times_v lengths)"

section \<open>First-half-average begin velocity (\<^verbatim>\<open>calcVelocity\<close>, lines 954--1009)\<close>

text \<open>
  Lines 968--972. \<^verbatim>\<open>i\<close> runs over \<^verbatim>\<open>range(1, maxcameras + 1)\<close>, so \<^verbatim>\<open>pop(i - 1)\<close> is always
  in range.
\<close>

definition fha_use_indices :: "nat \<Rightarrow> nat \<Rightarrow> nat list" where
  "fha_use_indices maxcameras i =
     (let use_indices = [0..<maxcameras]
      in if maxcameras > 2 \<and> i \<noteq> 0 then take (i - 1) use_indices @ drop i use_indices
         else use_indices)"

text \<open>
  What numpy documents of \<^verbatim>\<open>np.argsort\<close>: the result is a permutation of the indices that
  puts the keys in ascending order.
\<close>

definition argsort_ok :: "(real list \<Rightarrow> nat list) \<Rightarrow> real list \<Rightarrow> bool" where
  "argsort_ok argsort keys =
     (mset (argsort keys) = mset [0..<length keys]
      \<and> sorted (map (\<lambda>j. keys ! j) (argsort keys)))"

text \<open>
  Lines 975--989: the pooled, time-sorted pairs and their first half. \<open>argsort\<close> stands for
  \<^verbatim>\<open>np.argsort\<close>, whose default algorithm fixes no order among equal keys. \<^verbatim>\<open>np.c_\<close>
  raises \<^verbatim>\<open>ValueError\<close> on columns of different lengths, indexing out of range raises
  \<^verbatim>\<open>IndexError\<close>.
\<close>

definition fha_first_half ::
  "(real list \<Rightarrow> nat list) \<Rightarrow> real list list \<Rightarrow> real list list \<Rightarrow> nat list \<Rightarrow>
   pyerror + (real \<times> real) list" where
  "fha_first_half argsort times_v state_vector_distances use_indices =
     (let filtered_times = map snd (filter (\<lambda>(i, time_dat). i \<in> set use_indices)
                                     (enumerate 0 times_v));
          filtered_svs = map snd (filter (\<lambda>(i, sv_dat). i \<in> set use_indices)
                                   (enumerate 0 state_vector_distances));
          times_p = concat filtered_times;
          sv_dists = concat filtered_svs
      in if length times_p \<noteq> length sv_dists then Inl ValueError
         else (let temp_arr = zip times_p sv_dists;
                   order = argsort (map fst temp_arr)
               in if \<not> list_all (\<lambda>j. j < length temp_arr) order then Inl IndexError
                  else (let temp_arr = map (\<lambda>j. temp_arr ! j) order;
                            half_index = length temp_arr div 2
                        in Inr (take half_index temp_arr))))"

text \<open>
  \<^verbatim>\<open>np.sqrt(np.diag(pcov))[1]\<close>: \<open>None\<close> stands for a non-finite float (\<^verbatim>\<open>inf\<close> or \<^verbatim>\<open>nan\<close>),
  which is what the square root of a negative or non-finite variance is.
\<close>

definition intercept_stddev_of :: "real option \<Rightarrow> real option" where
  "intercept_stddev_of pcov11 =
     (case pcov11 of None \<Rightarrow> None | Some x \<Rightarrow> if x < 0 then None else Some (sqrt x))"

text \<open>
  \<^verbatim>\<open>intercept_stddev < best_stddev\<close>. \<^verbatim>\<open>best_stddev\<close> starts at \<^verbatim>\<open>np.inf\<close> (\<open>None\<close>) and is
  only ever replaced by a value that was smaller, hence finite; a \<^verbatim>\<open>nan\<close> or \<^verbatim>\<open>inf\<close> on the
  left is never smaller.
\<close>

definition stddev_less :: "real option \<Rightarrow> real option \<Rightarrow> bool" where
  "stddev_less intercept_stddev best_stddev =
     (case intercept_stddev of
        None \<Rightarrow> False
      | Some a \<Rightarrow> (case best_stddev of None \<Rightarrow> True | Some b \<Rightarrow> a < b))"

text \<open>
  Lines 968--995, one candidate. \<open>curve_fit\<close> stands for \<^verbatim>\<open>scipy.optimize.curve_fit\<close> on
  \<^verbatim>\<open>lineFunc\<close>: it returns the fitted (slope, intercept) and the variance of the intercept
  (\<open>None\<close> when that entry of the covariance is not finite), or raises.
\<close>

definition fha_candidate ::
  "(real list \<Rightarrow> real list \<Rightarrow> pyerror + ((real \<times> real) \<times> real option)) \<Rightarrow>
   (real list \<Rightarrow> nat list) \<Rightarrow> nat \<Rightarrow> real list list \<Rightarrow> real list list \<Rightarrow> nat \<Rightarrow>
   pyerror + ((real \<times> real) \<times> real option)" where
  "fha_candidate curve_fit argsort maxcameras times_v state_vector_distances i =
     (case fha_first_half argsort times_v state_vector_distances
             (fha_use_indices maxcameras i) of
        Inl e \<Rightarrow> Inl e
      | Inr half \<Rightarrow>
          (case curve_fit (map fst half) (map snd half) of
             Inl e \<Rightarrow> Inl e
           | Inr (popt, pcov11) \<Rightarrow> Inr (popt, intercept_stddev_of pcov11)))"

text \<open>
  The loop of lines 966--1005 over the remaining values of \<^verbatim>\<open>i\<close>, with the running pair
  \<^verbatim>\<open>(best_stddev, best_solution)\<close> and the \<^verbatim>\<open>break\<close> of the two-station case.
\<close>

fun fha_loop ::
  "(real list \<Rightarrow> real list \<Rightarrow> pyerror + ((real \<times> real) \<times> real option)) \<Rightarrow>
   (real list \<Rightarrow> nat list) \<Rightarrow> nat \<Rightarrow> real list list \<Rightarrow> real list list \<Rightarrow>
   real option \<times> (real \<times> real) option \<Rightarrow> nat list \<Rightarrow>
   pyerror + (real option \<times> (real \<times> real) option)" where
  "fha_loop curve_fit argsort maxcameras times_v svd best [] = Inr best"
| "fha_loop curve_fit argsort maxcameras times_v svd best (i # rest) =
     (case fha_candidate curve_fit argsort maxcameras times_v svd i of
        Inl e \<Rightarrow> Inl e
      | Inr (popt, intercept_stddev) \<Rightarrow>
          (let best' = (if stddev_less intercept_stddev (fst best)
                        then (intercept_stddev, Some popt) else best)
           in if maxcameras = 2 then Inr best'
              else fha_loop curve_fit argsort maxcameras times_v svd best' rest))"

text \<open>
  Lines 962--1009: the new \<^verbatim>\<open>vbegin\<close>. Subscripting \<^verbatim>\<open>best_solution\<close> raises \<^verbatim>\<open>TypeError\<close>
  when it is still \<^verbatim>\<open>None\<close>. The assignment of \<^verbatim>\<open>vavg\<close> for velocity model 0 (lines
  957--959) does not enter the selection and is left out.
\<close>

definition fha_vbegin ::
  "(real list \<Rightarrow> real list \<Rightarrow> pyerror + ((real \<times> real) \<times> real option)) \<Rightarrow>
   (real list \<Rightarrow> nat list) \<Rightarrow> nat \<Rightarrow> real list list \<Rightarrow> real list list \<Rightarrow> pyerror + real" where
  "fha_vbegin curve_fit argsort maxcameras times_v svd =
     (case fha_loop curve_fit argsort maxcameras times_v svd (None, None)
             [1..<maxcameras + 1] of
        Inl e \<Rightarrow> Inl e
      | Inr (best_stddev, None) \<Rightarrow> Inl TypeError
      | Inr (best_stddev, Some best_solution) \<Rightarrow> Inr (fst best_solution / 1000))"

section \<open>Pickling (\<^verbatim>\<open>wmpl/Utils/Pickling.py\<close>, \<^verbatim>\<open>GuralTrajectory.savePickle\<close>)\<close>

text \<open>
  An object is the map of its instance attributes. Values are kept only as far as their
  truth value matters: \<open>PyObject\<close> is an instance of a class that defines neither
  \<^verbatim>\<open>__bool__\<close> nor \<^verbatim>\<open>__len__\<close> (a loaded library, a ctypes structure), which is always true.
\<close>

datatype pyval = PyNone | PyBool bool | PyInt int | PyObject nat

fun py_truth :: "pyval \<Rightarrow> bool" where
  "py_truth PyNone = False"
| "py_truth (PyBool b) = b"
| "py_truth (PyInt i) = (i \<noteq> 0)"
| "py_truth (PyObject r) = True"

type_synonym pyobj = "string \<rightharpoonup> pyval"

text \<open>
  \<^verbatim>\<open>savePickle\<close> of \<^verbatim>\<open>Pickling.py\<close>, lines 14--28, on a state \<open>'w\<close> of the file system.
  \<open>mkdirP\<close> (of \<^verbatim>\<open>wmpl.Utils.OSTools\<close>), \<^verbatim>\<open>os.path.join\<close> and the writing of the pickle
  (\<^verbatim>\<open>open\<close> and \<^verbatim>\<open>pickle.dump\<close>, which read the object and do not change it) are parameters;
  each effect returns the exception it raised, if any, and the new file system.
\<close>

definition savePickle ::
  "(string \<Rightarrow> 'w \<Rightarrow> pyerror option \<times> 'w) \<Rightarrow> (string \<Rightarrow> string \<Rightarrow> string) \<Rightarrow>
   (string \<Rightarrow> pyobj \<Rightarrow> 'w \<Rightarrow> pyerror option \<times> 'w) \<Rightarrow>
   pyobj \<Rightarrow> string \<Rightarrow> string \<Rightarrow> 'w \<Rightarrow> pyerror option \<times> 'w" where
  "savePickle mkdirP path_join pickle_dump obj dir_path file_name w =
     (case mkdirP dir_path w of
        (Some e, w1) \<Rightarrow> (Some e, w1)
      | (None, w1) \<Rightarrow> pickle_dump (path_join dir_path file_name) obj w1)"

text \<open>
  Lines 1641--1651: \<^verbatim>\<open>try: backup = self.attr; del self.attr\<close>
  \<^verbatim>\<open>except AttributeError: backup = None\<close>.
\<close>

definition backup_and_remove :: "string \<Rightarrow> pyobj \<Rightarrow> pyval \<times> pyobj" where
  "backup_and_remove attr self =
     (case self attr of
        None \<Rightarrow> (PyNone, self)
      | Some v \<Rightarrow> (v, self(attr := None)))"

text \<open>Lines 1656--1660: \<^verbatim>\<open>if backup: self.attr = backup\<close>.\<close>

definition restore_attr :: "string \<Rightarrow> pyval \<Rightarrow> pyobj \<Rightarrow> pyobj" where
  "restore_attr attr backup self = (if py_truth backup then self(attr \<mapsto> backup) else self)"

text \<open>
  \<^verbatim>\<open>GuralTrajectory.savePickle\<close>, lines 1634--1660: the exception raised (if any), the
  object and the file system after the call. An exception of the inner \<^verbatim>\<open>savePickle\<close>
  leaves the method before the attributes are restored.
\<close>

definition GuralTrajectory_savePickle ::
  "(string \<Rightarrow> 'w \<Rightarrow> pyerror option \<times> 'w) \<Rightarrow> (string \<Rightarrow> string \<Rightarrow> string) \<Rightarrow>
   (string \<Rightarrow> pyobj \<Rightarrow> 'w \<Rightarrow> pyerror option \<times> 'w) \<Rightarrow>
   pyobj \<Rightarrow> string \<Rightarrow> string \<Rightarrow> 'w \<Rightarrow> pyerror option \<times> pyobj \<times> 'w" where
  "GuralTrajectory_savePickle mkdirP path_join pickle_dump self dir_path file_name w =
     (case backup_and_remove ''traj_lib'' self of
        (backup_traj_lib, self1) \<Rightarrow>
          (case backup_and_remove ''traj'' self1 of
             (backup_traj, self2) \<Rightarrow>
               (case savePickle mkdirP path_join pickle_dump self2 dir_path file_name w of
                  (Some e, w') \<Rightarrow> (Some e, self2, w')
                | (None, w') \<Rightarrow>
                    (None,
                     restore_attr ''traj'' backup_traj
                       (restore_attr ''traj_lib'' backup_traj_lib self2),
                     w'))))"

section \<open>MILIG input (\<^verbatim>\<open>wmpl/Formats/Milig.py\<close>)\<close>

record StationData =
  station_id :: string
  lon :: real
  lat :: real
  height :: real
  time_data :: "real list"
  azim_data :: "real list"
  zangle_data :: "real list"
  ignore_picks :: "int list"

text \<open>\<^verbatim>\<open>StationData.__init__(self, station_id, lon, lat, height)\<close>, lines 20--30.\<close>

definition StationData_init :: "string \<Rightarrow> real \<Rightarrow> real \<Rightarrow> real \<Rightarrow> StationData" where
  "StationData_init station_id_a lon_a lat_a height_a =
     \<lparr>station_id = station_id_a, lon = lon_a, lat = lat_a, height = height_a,
      time_data = [], azim_data = [], zangle_data = [], ignore_picks = []\<rparr>"

text \<open>\<^verbatim>\<open>np.radians\<close>.\<close>

definition radians :: "real \<Rightarrow> real" where
  "radians d = d * pi / 180"

text \<open>Python's slice \<^verbatim>\<open>s[i:j]\<close> for \<open>0 \<le> i \<le> j\<close>, and \<^verbatim>\<open>s[i:]\<close>: never out of range.\<close>

definition py_slice :: "nat \<Rightarrow> nat \<Rightarrow> string \<Rightarrow> string" where
  "py_slice i j s = take (j - i) (drop i s)"

text \<open>
  Lines 107--138, a station header line. \<open>py_strip\<close> stands for Python's \<^verbatim>\<open>str.strip\<close>
  and \<open>py_float\<close> for Python's \<^verbatim>\<open>float\<close> on a string, which raises \<^verbatim>\<open>ValueError\<close> on
  what it cannot read. The source names the value of columns 3--13 \<^verbatim>\<open>lat\<close> and that of
  columns 13--23 \<^verbatim>\<open>lon\<close>, and calls \<^verbatim>\<open>StationData(station_id, lat, lon, height)\<close>, whose
  parameters are \<^verbatim>\<open>(station_id, lon, lat, height)\<close>: the attribute \<^verbatim>\<open>lon\<close> gets columns
  3--13 and the attribute \<^verbatim>\<open>lat\<close> gets columns 13--23.
\<close>

definition read_station ::
  "(string \<Rightarrow> string) \<Rightarrow> (string \<Rightarrow> pyerror + real) \<Rightarrow> string \<Rightarrow> pyerror + StationData" where
  "read_station py_strip py_float line =
     (let station_id_v = py_strip (take 3 line)
      in case py_float (py_slice 3 13 line) of
           Inl e \<Rightarrow> Inl e
         | Inr lat_deg \<Rightarrow>
             (let lat_v = radians lat_deg
              in case py_float (py_slice 13 23 line) of
                   Inl e \<Rightarrow> Inl e
                 | Inr lon_deg \<Rightarrow>
                     (let lon_v = radians lon_deg
                      in case py_float (py_slice 23 28 line) of
                           Inl e \<Rightarrow> Inl e
                         | Inr h_km \<Rightarrow>
                             (let height_v = h_km * 1000
                              in Inr (StationData_init station_id_v lat_v lon_v height_v)))))"





text \<open>\<^verbatim>\<open>np.degrees\<close>.\<close>

definition degrees :: "real \<Rightarrow> real" where
  "degrees r = r * 180 / pi"

text \<open>
  \<^verbatim>\<open>writeMiligInputFile\<close>, lines 302--304: the station line written for one station, without
  its line end. The five conversions of the format string
  \<^verbatim>\<open>"{:3d}{:+10.5f}{:10.6f}{:5.3f}{:5.2f}"\<close> are parameters; the first one stands for
  \<^verbatim>\<open>int\<close> on the station id followed by \<^verbatim>\<open>{:3d}\<close>, and it raises \<^verbatim>\<open>ValueError\<close> when the id
  is no integer.
\<close>

definition write_station_line ::
  "(string \<Rightarrow> pyerror + string) \<Rightarrow> (real \<Rightarrow> string) \<Rightarrow> (real \<Rightarrow> string) \<Rightarrow>
   (real \<Rightarrow> string) \<Rightarrow> (real \<Rightarrow> string) \<Rightarrow> StationData \<Rightarrow> pyerror + string" where
  "write_station_line fmt_id fmt_lon fmt_lat fmt_height fmt_weight meteor =
     (case fmt_id (station_id meteor) of
        Inl e \<Rightarrow> Inl e
      | Inr id_field \<Rightarrow>
          Inr (id_field @ fmt_lon (degrees (lon meteor)) @ fmt_lat (degrees (lat meteor))
               @ fmt_height (height meteor / 1000) @ fmt_weight 1))"

section \<open>Properties\<close>

subsection \<open>Shared facts\<close>

lemma np_broadcast_same:
  "length xs = length ys \<Longrightarrow> np_broadcast f xs ys = Inr (map2 f xs ys)"
  by (simp add: np_broadcast_def)

lemma vectMag_self: "vectMag (vsub p p) = 0"
  by (cases p) (simp add: vectMag_def vsub_def vdot_def)

lemma vdot_self_nonneg: "0 \<le> vdot a a"
  by (cases a) (simp add: vdot_def)

lemma vectMag_nonneg: "0 \<le> vectMag a"
  by (simp add: vectMag_def vdot_self_nonneg)

lemma machine_eps_pos: "0 < machine_eps"
  by (simp add: machine_eps_def)

subsection \<open>The lag fit\<close>

text \<open>
  C1, as stated, asks that the fit uses about the first quarter of a station's points and
  never fewer than four. With three points the fit gets three points (the last conjunct
  passes a fit that returns the number of points it was given), and with eight points it
  gets all eight.
\<close>

theorem lag_fit_window_counterexample:
  "fitLagIntercept_window [0, 1, 2] [0, 10, 20] = ([0, 1, 2], [0, 10, 20])
   \<and> \<not> 4 \<le> length (fst (fitLagIntercept_window [0, 1, 2] [0, 10, 20]))
   \<and> fitLagIntercept_window [0, 1, 2, 3, 4, 5, 6, 7] [0, 1, 2, 3, 4, 5, 6, 7]
       = ([0, 1, 2, 3, 4, 5, 6, 7], [0, 1, 2, 3, 4, 5, 6, 7])
   \<and> fitLagIntercept (\<lambda>f xs ys p0. Inr (real (length xs))) [0, 1, 2] [0, 10, 20] 7 0
       = Inr (7, 3)"
  by (simp add: fitLagIntercept_window_def fitLagIntercept_def)

lemma fitLagIntercept_window_eq:
  "fitLagIntercept_window time_v length_v =
     (take (if length time_v < 16 then length time_v else length time_v div 4) time_v,
      take (if length time_v < 16 then length time_v else length time_v div 4) length_v)"
proof -
  have "(length time_v div 4 < 4) = (length time_v < 16)" by arith
  then show ?thesis by (simp add: fitLagIntercept_window_def Let_def)
qed

text \<open>
  C1 (amended): for every station the slope of the lag line is fixed at the begin velocity
  (times 1000) and the intercept is the one free parameter of the fit. The fit gets the
  first \<open>n div 4\<close> of the station's \<open>n\<close> points when \<open>n \<ge> 16\<close> (then at least four points)
  and all \<open>n\<close> points when \<open>n < 16\<close>; the lag of every point is its length minus the value
  of that line at its time.
\<close>

theorem lag_intercept_fit:
  assumes q: "q = (if length t_data < 16 then length t_data else length t_data div 4)"
    and len: "length length_v = length t_data"
  shows "fitLagIntercept_window t_data length_v = (take q t_data, take q length_v)
    \<and> (16 \<le> length t_data \<longrightarrow> 4 \<le> q)
    \<and> fitLagIntercept curve_fit t_data length_v v_init p0 =
        (case curve_fit (\<lambda>x k. v_init * x + k) (take q t_data) (take q length_v) p0 of
           Inl e \<Rightarrow> Inl e | Inr b \<Rightarrow> Inr (v_init, b))
    \<and> station_lag curve_fit vbegin t_data length_v =
        (case curve_fit (\<lambda>x k. vbegin * 1000 * x + k) (take q t_data) (take q length_v) 0 of
           Inl e \<Rightarrow> Inl e
         | Inr b \<Rightarrow> Inr (map2 (\<lambda>l t. l - (vbegin * 1000 * t + b)) length_v t_data))"
proof -
  have w: "fitLagIntercept_window t_data length_v = (take q t_data, take q length_v)"
    unfolding q by (rule fitLagIntercept_window_eq)
  have b: "16 \<le> length t_data \<longrightarrow> 4 \<le> q"
    unfolding q by auto
  have f: "fitLagIntercept curve_fit t_data length_v v p =
        (case curve_fit (\<lambda>x k. v * x + k) (take q t_data) (take q length_v) p of
           Inl e \<Rightarrow> Inl e | Inr b \<Rightarrow> Inr (v, b))" for v p
    by (simp add: fitLagIntercept_def w lineFunc_def)
  have m: "map2 (-) length_v (map (\<lambda>x. m * x + k) t_data)
      = map2 (\<lambda>l t. l - (m * t + k)) length_v t_data" for m k
    using len by (induction length_v t_data rule: list_induct2) auto
  have s: "station_lag curve_fit vbegin t_data length_v =
        (case curve_fit (\<lambda>x k. vbegin * 1000 * x + k) (take q t_data) (take q length_v) 0 of
           Inl e \<Rightarrow> Inl e
         | Inr b \<Rightarrow> Inr (map2 (\<lambda>l t. l - (vbegin * 1000 * t + b)) length_v t_data))"
    using len by (simp add: station_lag_def f lineFunc_def np_broadcast_same m split: sum.splits)
  from w b f s show ?thesis by blast
qed

theorem lag_intercept_fit_witness:
  "station_lag (\<lambda>f xs ys p0. Inr (hd ys - f (hd xs) 0 + real (length xs))) 1
     [0, 1, 2, 3, 4, 5, 6, 7, 8, 9, 10, 11, 12, 13, 14, 15, 16]
     [0, 1000, 2000, 3000, 4000, 5000, 6000, 7000, 8000, 9000, 10000, 11000, 12000, 13000,
      14000, 15000, 16000]
   = Inr [-4, -4, -4, -4, -4, -4, -4, -4, -4, -4, -4, -4, -4, -4, -4, -4, -4]"
  using lag_intercept_fit [of 4 "[0, 1, 2, 3, 4, 5, 6, 7, 8, 9, 10, 11, 12, 13, 14, 15, 16]"
      "[0, 1000, 2000, 3000, 4000, 5000, 6000, 7000, 8000, 9000, 10000, 11000, 12000, 13000,
      14000, 15000, 16000]" "\<lambda>f xs ys p0. Inr (hd ys - f (hd xs) 0 + real (length xs))" 0 0 1]
  by simp

subsection \<open>Station coordinates read from a MILIG file\<close>

lemma read_station_fields:
  assumes "py_float (py_slice 3 13 line) = Inr a"
    and "py_float (py_slice 13 23 line) = Inr b"
    and "py_float (py_slice 23 28 line) = Inr h_km"
  shows "\<exists>st. read_station py_strip py_float line = Inr st
     \<and> lon st = radians a \<and> lat st = radians b \<and> height st = h_km * 1000"
  using assms by (simp add: read_station_def StationData_init_def)







text \<open>
  The writer puts the longitude in columns 3--13 and the latitude in columns 13--23, and
  the loader reads a written station line back into the attributes it was written from.
\<close>

lemma radians_degrees: "radians (degrees r) = r"
  by (simp add: radians_def degrees_def)

lemma write_station_line_columns:
  assumes "fmt_id (station_id meteor) = Inr f" "length f = 3"
    and "length (fmt_lon (degrees (lon meteor))) = 10"
    and "length (fmt_lat (degrees (lat meteor))) = 10"
  shows "\<exists>line. write_station_line fmt_id fmt_lon fmt_lat fmt_height fmt_weight meteor = Inr line
     \<and> py_slice 3 13 line = fmt_lon (degrees (lon meteor))
     \<and> py_slice 13 23 line = fmt_lat (degrees (lat meteor))"
  using assms by (simp add: write_station_line_def py_slice_def)

lemma read_written_station:
  assumes "fmt_id (station_id meteor) = Inr f" "length f = 3"
    and "length (fmt_lon (degrees (lon meteor))) = 10"
    and "length (fmt_lat (degrees (lat meteor))) = 10"
    and "length (fmt_height (height meteor / 1000)) = 5"
    and "py_float (fmt_lon (degrees (lon meteor))) = Inr a"
    and "py_float (fmt_lat (degrees (lat meteor))) = Inr b"
    and "py_float (fmt_height (height meteor / 1000)) = Inr h_km"
  shows "\<exists>line st. write_station_line fmt_id fmt_lon fmt_lat fmt_height fmt_weight meteor = Inr line
     \<and> read_station py_strip py_float line = Inr st
     \<and> lat st = radians b \<and> lon st = radians a"
proof -
  let ?line = "f @ fmt_lon (degrees (lon meteor)) @ fmt_lat (degrees (lat meteor))
               @ fmt_height (height meteor / 1000) @ fmt_weight 1"
  have w: "write_station_line fmt_id fmt_lon fmt_lat fmt_height fmt_weight meteor = Inr ?line"
    using assms(1) by (simp add: write_station_line_def)
  have 1: "py_slice 3 13 ?line = fmt_lon (degrees (lon meteor))"
    using assms(2,3) by (simp add: py_slice_def)
  have 2: "py_slice 13 23 ?line = fmt_lat (degrees (lat meteor))"
    using assms(2,3,4) by (simp add: py_slice_def)
  have 3: "py_slice 23 28 ?line = fmt_height (height meteor / 1000)"
    using assms(2,3,4,5) by (simp add: py_slice_def)
  from read_station_fields [of py_float ?line a b h_km py_strip] assms(6,7,8)
  obtain st where "read_station py_strip py_float ?line = Inr st" "lat st = radians b"
    "lon st = radians a" unfolding 1 2 3 by blast
  with w show ?thesis by blast
qed

subsection \<open>Measurement conventions\<close>

text \<open>
  C3, as stated, asks for an \<open>InvalidConvention\<close> error on every unrecognized code. With
  code 5 and one station the conversion raises \<open>UnboundLocalError\<close>, and with no station
  it raises nothing.
\<close>

theorem unrecognized_meastype_counterexample:
  "calc_los (\<lambda>a b c d e. ([], [])) (\<lambda>a b c d e. ([], [])) (\<lambda>a b. ()) 5 0 [[0]] [[0]] [[0]] [0] [0]
     = Inl UnboundLocalError
   \<and> calc_los (\<lambda>a b c d e. ([], [])) (\<lambda>a b c d e. ([], [])) (\<lambda>a b. ()) 5 0 [[0]] [[0]] [[0]] [0] [0]
     \<noteq> Inl InvalidConvention
   \<and> calc_los (\<lambda>a b c d e. ([], [])) (\<lambda>a b c d e. ([], [])) (\<lambda>a b. ()) 5 0 [] [] [] [] []
     = Inr []"
  by (simp add: meas_azim_elev_def calc_los_def)

text \<open>
  C3 (amended): for every code other than 1, 2, 3 and 4 the convention chain assigns no
  azimuth and no elevation (no convention is taken as a default), and the conversion of the
  first station raises \<open>UnboundLocalError\<close>.
\<close>

theorem unrecognized_meastype_unbound:
  assumes "meastype \<noteq> 1" "meastype \<noteq> 2" "meastype \<noteq> 3" "meastype \<noteq> 4"
  shows "meas_azim_elev raDec2AltAz_vect meastype jdt_ref lat_s lon_s meas1 meas2 None = None
    \<and> calc_los raDec2AltAz_vect altAz2RADec_vect raDec2ECI meastype jdt_ref
         (jd_data # jds) (meas1 # m1s) (meas2 # m2s) (lat_s # lats) (lon_s # lons)
       = Inl UnboundLocalError"
  using assms by (simp add: meas_azim_elev_def calc_los_def)

theorem unrecognized_meastype_unbound_witness:
  "(0::int) \<noteq> 1 \<and> (0::int) \<noteq> 2 \<and> (0::int) \<noteq> 3 \<and> (0::int) \<noteq> 4
   \<and> calc_los (\<lambda>a b c d e. (a, b)) (\<lambda>a b c d e. (a, b)) (\<lambda>a b. a) 0 2451545
         [[2451545]] [[1]] [[2]] [1] [1] = Inl UnboundLocalError"
  using unrecognized_meastype_unbound [of 0 "\<lambda>a b c d e. (a, b)" 2451545 1 1 "[1]" "[2]"
      "\<lambda>a b c d e. (a, b)" "\<lambda>a b. a" "[2451545]" "[]" "[]" "[]" "[]" "[]"]
  by simp

lemma py_mod_range:
  assumes "0 < m"
  shows "0 \<le> py_mod x m \<and> py_mod x m < m"
proof -
  have 1: "of_int \<lfloor>x / m\<rfloor> \<le> x / m" by (rule of_int_floor_le)
  have 2: "x / m < of_int \<lfloor>x / m\<rfloor> + 1" by linarith
  from 1 have a: "of_int \<lfloor>x / m\<rfloor> * m \<le> x"
    unfolding pos_le_divide_eq [OF assms] .
  from 2 have b: "x < (of_int \<lfloor>x / m\<rfloor> + 1) * m"
    unfolding pos_divide_less_eq [OF assms] .
  have c: "(of_int \<lfloor>x / m\<rfloor> + 1) * m = of_int \<lfloor>x / m\<rfloor> * m + m"
    by (simp only: distrib_right mult_1)
  have d: "py_mod x m = x - of_int \<lfloor>x / m\<rfloor> * m"
    by (simp only: py_mod_def mult.commute)
  from a b show ?thesis unfolding d c by linarith
qed

lemma py_mod_pi: "py_mod pi (2 * pi) = pi"
proof -
  have "pi / (2 * pi) = 1 / 2" by simp
  then have "\<lfloor>pi / (2 * pi)\<rfloor> = 0" by simp
  then show ?thesis by (simp add: py_mod_def)
qed

lemma py_mod_5pi2: "py_mod (5 * pi / 2) (2 * pi) = pi / 2"
proof -
  have "5 * pi / 2 / (2 * pi) = 5 / 4" by simp
  then have f: "\<lfloor>5 * pi / 2 / (2 * pi)\<rfloor> = \<lfloor>5 / (4::real)\<rfloor>" by (simp only:)
  have "\<lfloor>5 / (4::real)\<rfloor> = 1" by linarith
  with f have "\<lfloor>5 * pi / 2 / (2 * pi)\<rfloor> = 1" by (simp only:)
  then show ?thesis unfolding py_mod_def by simp
qed


text \<open>
  C7: under convention 3 every pair \<open>(meas1, meas2)\<close> becomes the azimuth
  \<open>(meas1 + \<pi>) mod 2\<pi>\<close>, that is the number of \<open>[0, 2\<pi>)\<close> that differs from
  \<open>meas1 + \<pi>\<close> by a whole multiple of \<open>2\<pi>\<close>, and the elevation \<open>\<pi>/2 \<minus> meas2\<close>; the pair
  \<open>(0, \<pi>/2)\<close> becomes \<open>(\<pi>, 0)\<close>, and these are the values handed to the conversion to
  right ascension and declination.
\<close>

theorem meastype3_normalization:
  "\<exists>azim elev.
     meas_azim_elev raDec2AltAz_vect 3 jdt_ref lat_s lon_s meas1 meas2 bound = Some (azim, elev)
     \<and> length azim = length meas1 \<and> length elev = length meas2
     \<and> (\<forall>i<length meas1. 0 \<le> azim ! i \<and> azim ! i < 2 * pi
           \<and> (\<exists>k::int. azim ! i = meas1 ! i + pi - 2 * pi * of_int k))
     \<and> (\<forall>i<length meas2. elev ! i = pi / 2 - meas2 ! i)
     \<and> meas_azim_elev raDec2AltAz_vect 3 jdt_ref lat_s lon_s [0] [pi / 2] bound
         = Some ([pi], [0])
     \<and> calc_los raDec2AltAz_vect altAz2RADec_vect raDec2ECI 3 jdt_ref [jd_data] [[0]]
           [[pi / 2]] [lat_s] [lon_s] =
         Inr [(altAz2RADec_vect [pi] [0] jd_data lat_s lon_s,
               case altAz2RADec_vect [pi] [0] jd_data lat_s lon_s of (r, d) \<Rightarrow> raDec2ECI r d)]"
proof -
  let ?az = "map (\<lambda>a. py_mod (a + pi) (2 * pi)) meas1"
  let ?el = "map (\<lambda>z. pi / 2 - z) meas2"
  have r: "meas_azim_elev raDec2AltAz_vect 3 jdt_ref lat_s lon_s meas1 meas2 bound = Some (?az, ?el)"
    by (simp add: meas_azim_elev_def)
  have p: "0 < 2 * pi" by simp
  have a: "0 \<le> ?az ! i \<and> ?az ! i < 2 * pi
           \<and> (\<exists>k::int. ?az ! i = meas1 ! i + pi - 2 * pi * of_int k)"
    if "i < length meas1" for i
  proof -
    have e: "?az ! i = py_mod (meas1 ! i + pi) (2 * pi)" using that by simp
    have "py_mod (meas1 ! i + pi) (2 * pi)
          = meas1 ! i + pi - 2 * pi * of_int \<lfloor>(meas1 ! i + pi) / (2 * pi)\<rfloor>"
      by (simp add: py_mod_def)
    then have "\<exists>k::int. ?az ! i = meas1 ! i + pi - 2 * pi * of_int k"
      unfolding e by blast
    with py_mod_range [OF p, of "meas1 ! i + pi"] e show ?thesis by simp
  qed
  have b: "?el ! i = pi / 2 - meas2 ! i" if "i < length meas2" for i
    using that by simp
  have c: "meas_azim_elev raDec2AltAz_vect 3 jdt_ref lat_s lon_s [0] [pi / 2] bound
         = Some ([pi], [0])"
    by (simp add: meas_azim_elev_def py_mod_pi)
  have d: "calc_los raDec2AltAz_vect altAz2RADec_vect raDec2ECI 3 jdt_ref [jd_data] [[0]]
           [[pi / 2]] [lat_s] [lon_s] =
         Inr [(altAz2RADec_vect [pi] [0] jd_data lat_s lon_s,
               case altAz2RADec_vect [pi] [0] jd_data lat_s lon_s of (r, d) \<Rightarrow> raDec2ECI r d)]"
    by (simp add: meas_azim_elev_def calc_los_def py_mod_pi split: prod.splits)
  have l: "length ?az = length meas1" "length ?el = length meas2" by simp_all
  from r l a b c d show ?thesis by blast
qed

theorem meastype3_normalization_witness:
  "meas_azim_elev (\<lambda>a b c d e. (a, b)) 3 2451545 1 1 [0, 3 * pi / 2] [pi / 2, 0] None
     = Some ([pi, pi / 2], [0, pi / 2])
   \<and> (0::real) \<le> pi / 2 \<and> pi / 2 < 2 * pi
   \<and> pi / 2 = 3 * pi / 2 + pi - 2 * pi * of_int 1"
proof -
  have e: "meas_azim_elev (\<lambda>a b c d e. (a, b)) 3 2451545 1 1 [0, 3 * pi / 2] [pi / 2, 0] None
     = Some ([pi, pi / 2], [0, pi / 2])"
    by (simp add: meas_azim_elev_def py_mod_pi py_mod_5pi2)
  from meastype3_normalization [of "\<lambda>a b c d e. (a, b)" 2451545 1 1 "[0, 3 * pi / 2]"
      "[pi / 2, 0]" None]
  obtain azim elev where
    s: "meas_azim_elev (\<lambda>a b c d e. (a, b)) 3 2451545 1 1 [0, 3 * pi / 2] [pi / 2, 0] None
          = Some (azim, elev)"
    and r: "\<forall>i<length [0, 3 * pi / 2]. 0 \<le> azim ! i \<and> azim ! i < 2 * pi" by blast
  from s e have "azim = [pi, pi / 2]" by simp
  with r have "0 \<le> [pi, pi / 2] ! 1 \<and> [pi, pi / 2] ! 1 < 2 * pi" by simp
  then have "(0::real) \<le> pi / 2 \<and> pi / 2 < 2 * pi" by simp
  moreover have "pi / 2 = 3 * pi / 2 + pi - 2 * pi * of_int 1" by simp
  ultimately show ?thesis using e by blast
qed

subsection \<open>Stations with fewer than two points\<close>

text \<open>
  C4, as stated, asks that a station with a single point reports its velocity as
  unavailable. The code gives it the velocity array \<open>[0]\<close>.
\<close>

theorem single_point_station_counterexample:
  "station_kinematics (Some (1, 0, 0)) [5] [(1, 0, 0)] = Inr ([0], [0], [Some 0])"
  by (simp add: station_kinematics_def station_distances_def station_velocity_def
      np_broadcast_def np_div_def vectMag_def vsub_def vdot_def)

text \<open>
  C4 (amended): the kinematics stage checks no minimum number of points. A station with a
  single point gets the along-track length \<open>[0]\<close> and the instantaneous velocity \<open>[0]\<close>,
  a number, and its lag is a number whenever the fit of the intercept returns; its average
  velocity is the quotient \<open>0/0\<close>, which is no finite number. A station with no point
  gets empty arrays, and its average velocity raises \<open>IndexError\<close>.
\<close>

theorem single_point_station_kinematics:
  "station_kinematics (Some b) [t] [p] = Inr ([0], [vectMag (vsub b p)], [Some 0])
   \<and> station_v_avg [0] [t] = Inr None
   \<and> station_lag curve_fit vbegin [t] [0] =
       (case curve_fit (\<lambda>x k. vbegin * 1000 * x + k) [t] [0] 0 of
          Inl e \<Rightarrow> Inl e
        | Inr k \<Rightarrow> Inr [0 - (vbegin * 1000 * t + k)])
   \<and> station_kinematics beg [] [] = Inr ([], [], [])
   \<and> station_v_avg [] [] = Inl IndexError"
proof -
  have 1: "station_kinematics (Some b) [t] [p] = Inr ([0], [vectMag (vsub b p)], [Some 0])"
    using machine_eps_pos
    by (simp add: station_kinematics_def station_distances_def station_velocity_def
        np_broadcast_def np_div_def vectMag_self)
  have 2: "station_v_avg [0] [t] = Inr None"
    by (simp add: station_v_avg_def np_div_def)
  have 3: "station_lag curve_fit vbegin [t] [0] =
       (case curve_fit (\<lambda>x k. vbegin * 1000 * x + k) [t] [0] 0 of
          Inl e \<Rightarrow> Inl e
        | Inr k \<Rightarrow> Inr [0 - (vbegin * 1000 * t + k)])"
    by (simp add: station_lag_def fitLagIntercept_def fitLagIntercept_window_def lineFunc_def
        np_broadcast_def split: sum.splits)
  have 4: "station_kinematics beg [] [] = Inr ([], [], [])"
    by (simp add: station_kinematics_def station_distances_def station_velocity_def
        np_broadcast_def)
  have 5: "station_v_avg [] [] = Inl IndexError"
    by (simp add: station_v_avg_def)
  from 1 2 3 4 5 show ?thesis by blast
qed

subsection \<open>Zero time steps\<close>

lemma shifted_eq: "butlast (0 # xs) = take (length xs) ((0::real) # xs)"
  by (simp add: butlast_conv_take)

lemma shifted_length: "length (butlast ((0::real) # xs)) = length xs"
  by (simp del: butlast.simps)

lemma shifted_nth:
  "i < length xs \<Longrightarrow> butlast ((0::real) # xs) ! i = (if i = 0 then 0 else xs ! (i - 1))"
  unfolding shifted_eq by (cases i) simp_all

lemma diffs_length: "length (map2 (-) xs (butlast ((0::real) # xs))) = length xs"
  by (simp add: shifted_length del: butlast.simps)

lemma diffs_nth:
  "i < length xs \<Longrightarrow>
   map2 (-) xs (butlast ((0::real) # xs)) ! i = xs ! i - (if i = 0 then 0 else xs ! (i - 1))"
  using shifted_nth [of i xs] by (simp add: shifted_length del: butlast.simps)

text \<open>
  C5: for every station the velocity computation returns an array with exactly one entry
  per measurement; entry \<open>i\<close> is the length step divided by the time step, where a time
  step of zero (a repeated time, or a first sample at time 0) is replaced by the machine
  epsilon, so that no divisor is zero.
\<close>

theorem velocity_zero_time_guard:
  assumes len: "length length_v = length t_data"
  shows "\<exists>velocity. station_velocity length_v t_data = Inr velocity
     \<and> length velocity = length t_data
     \<and> (\<forall>i < length t_data.
          (let dt = t_data ! i - (if i = 0 then 0 else t_data ! (i - 1));
               dl = length_v ! i - (if i = 0 then 0 else length_v ! (i - 1));
               dt' = (if dt = 0 then machine_eps else dt)
           in dt' \<noteq> 0 \<and> velocity ! i = Some (dl / dt')))"
proof -
  let ?dd = "map2 (-) length_v (butlast (0 # length_v))"
  let ?td = "map (\<lambda>d. if d = 0 then machine_eps else d) (map2 (-) t_data (butlast (0 # t_data)))"
  have l: "length ?dd = length ?td" using len by (simp add: diffs_length del: butlast.simps)
  have v: "station_velocity length_v t_data = Inr (map2 np_div ?dd ?td)"
    unfolding station_velocity_def Let_def using l by (rule np_broadcast_same)
  have n: "length (map2 np_div ?dd ?td) = length t_data"
    using len by (simp add: diffs_length shifted_length del: butlast.simps)
  have e: "(let dt = t_data ! i - (if i = 0 then 0 else t_data ! (i - 1));
               dl = length_v ! i - (if i = 0 then 0 else length_v ! (i - 1));
               dt' = (if dt = 0 then machine_eps else dt)
           in dt' \<noteq> 0 \<and> map2 np_div ?dd ?td ! i = Some (dl / dt'))"
    if i: "i < length t_data" for i
  proof -
    have i': "i < length length_v" using i len by simp
    have 1: "?dd ! i = length_v ! i - (if i = 0 then 0 else length_v ! (i - 1))"
      using i' by (rule diffs_nth)
    have 2: "?td ! i = (if t_data ! i - (if i = 0 then 0 else t_data ! (i - 1)) = 0 then machine_eps
                        else t_data ! i - (if i = 0 then 0 else t_data ! (i - 1)))"
      using i diffs_nth [of i t_data] by (simp add: diffs_length shifted_length del: butlast.simps)
    have 3: "map2 np_div ?dd ?td ! i = np_div (?dd ! i) (?td ! i)"
      using i i' by (simp add: diffs_length shifted_length del: butlast.simps)
    show ?thesis
      unfolding Let_def 3 1 2 using machine_eps_pos by (auto simp add: np_div_def)
  qed
  from v n e show ?thesis by blast
qed

theorem velocity_zero_time_guard_witness:
  "station_velocity [0, 5, 9] [0, 1, 1] = Inr [Some 0, Some 5, Some (4 * 2 ^ 52)]"
  using velocity_zero_time_guard [of "[0, 5, 9]" "[0, 1, 1]"]
  by (simp add: station_velocity_def np_broadcast_def np_div_def machine_eps_def)

subsection \<open>Along-track length\<close>

lemma cpa_distances_Some:
  "cpa_distances ref_point (Some b) cs =
     Inr (map (\<lambda>c. vectMag (vsub ref_point c)) cs, map (\<lambda>c. vectMag (vsub b c)) cs)"
  by (induction cs) simp_all

lemma cpa_distances_None:
  "cs \<noteq> [] \<Longrightarrow> cpa_distances ref_point None cs = Inl TypeError"
  by (cases cs) simp_all

lemma station_distances_Some:
  "station_distances (Some b) cs =
     Inr (map (\<lambda>c. vectMag (vsub (cs ! 0) c)) cs, map (\<lambda>c. vectMag (vsub b c)) cs)"
  by (cases cs) (simp_all add: station_distances_def cpa_distances_Some del: cpa_distances.simps)

lemma station_distances_None:
  "station_distances None cs = (if cs = [] then Inr ([], []) else Inl TypeError)"
  by (cases cs) (simp_all add: station_distances_def)

lemma project_station_begin:
  assumes "project_station tol sv rad st los = Inr (cpas, st')"
  shows "fst st \<le> fst st' \<and> (\<forall>c\<in>set cpas. vectMag c \<le> fst st')
     \<and> (snd st' = None \<longrightarrow> snd st = None \<and> fst st' = fst st)"
  using assms
proof (induction los arbitrary: st cpas)
  case Nil
  then show ?case by simp
next
  case (Cons a los)
  obtain stat meas where a: "a = (stat, meas)" by (cases a) auto
  from Cons.prems obtain o_cpa rad_cpa d where
    f: "findClosestPoints tol stat meas sv rad = Inr (o_cpa, rad_cpa, d)"
    unfolding a by (auto split: sum.splits)
  define st1 where "st1 = (if vectMag rad_cpa > fst st then (vectMag rad_cpa, Some rad_cpa) else st)"
  from Cons.prems f obtain rest where
    r: "project_station tol sv rad st1 los = Inr (rest, st')" and c: "cpas = rad_cpa # rest"
    unfolding a by (auto simp: Let_def st1_def split: sum.splits)
  from Cons.IH [OF r] have ih: "fst st1 \<le> fst st'" "\<forall>c\<in>set rest. vectMag c \<le> fst st'"
    "snd st' = None \<longrightarrow> snd st1 = None \<and> fst st' = fst st1" by blast+
  have 1: "fst st \<le> fst st1" "vectMag rad_cpa \<le> fst st1"
    "snd st1 = None \<longrightarrow> snd st = None \<and> fst st1 = fst st"
    by (auto simp: st1_def)
  from ih 1 c show ?case by auto
qed

lemma project_all_begin:
  assumes "project_all tol sv rad st stations = Inr (alls, st')"
  shows "fst st \<le> fst st' \<and> (\<forall>c\<in>set (concat alls). vectMag c \<le> fst st')
     \<and> (snd st' = None \<longrightarrow> snd st = None \<and> fst st' = fst st)"
  using assms
proof (induction stations arbitrary: st alls)
  case Nil
  then show ?case by simp
next
  case (Cons a stations)
  obtain se me where a: "a = (se, me)" by (cases a) auto
  from Cons.prems obtain cpas st1 rest where
    p: "project_station tol sv rad st (zip se me) = Inr (cpas, st1)"
    and r: "project_all tol sv rad st1 stations = Inr (rest, st')"
    and c: "alls = cpas # rest"
    unfolding a by (auto split: sum.splits)
  from project_station_begin [OF p] have 1: "fst st \<le> fst st1" "\<forall>c\<in>set cpas. vectMag c \<le> fst st1"
    "snd st1 = None \<longrightarrow> snd st = None \<and> fst st1 = fst st" by blast+
  from Cons.IH [OF r] have ih: "fst st1 \<le> fst st'" "\<forall>c\<in>set (concat rest). vectMag c \<le> fst st'"
    "snd st' = None \<longrightarrow> snd st1 = None \<and> fst st' = fst st1" by blast+
  from 1 ih c show ?case by fastforce
qed

lemma begin_point_exists:
  assumes "calc_projections tol sv rad stations_eci meas_eci = Inr (alls, beg_cpa)"
    and "c \<in> set (concat alls)" "0 < vectMag c"
  shows "beg_cpa \<noteq> None"
proof
  assume n: "beg_cpa = None"
  from assms(1) obtain mx where
    p: "project_all tol sv rad (0, None) (zip stations_eci meas_eci) = Inr (alls, (mx, beg_cpa))"
    by (auto simp: calc_projections_def split: sum.splits)
  from project_all_begin [OF p] n have "mx = 0" "\<forall>c\<in>set (concat alls). vectMag c \<le> mx" by auto
  with assms(2,3) show False by fastforce
qed

text \<open>
  C8: whenever the lengths of a station with at least one projection are computed,
  \<open>length[i]\<close> is the magnitude of \<open>CPA[0] \<minus> CPA[i]\<close> for the station's own first
  projection, it is not negative, and \<open>length[0]\<close> is 0. They are computed as soon as a
  begin point exists, which is the case when the projection stage returned a point away
  from the Earth's centre. The instance after the theorem has the lengths \<open>[0, 3, 1]\<close>:
  nothing makes them monotone.
\<close>

theorem along_track_length:
  assumes ret: "station_distances beg_cpa rad_cpa_list = Inr (length_v, svd)"
    and i: "i < length rad_cpa_list"
  shows "beg_cpa \<noteq> None
    \<and> length length_v = length rad_cpa_list
    \<and> length_v ! i = vectMag (vsub (rad_cpa_list ! 0) (rad_cpa_list ! i))
    \<and> 0 \<le> length_v ! i
    \<and> length_v ! 0 = 0
    \<and> (\<forall>b cs. \<exists>r. station_distances (Some b) cs = Inr r)
    \<and> (\<forall>tol sv rad se me alls beg c cs.
          calc_projections tol sv rad se me = Inr (alls, beg) \<and> c \<in> set (concat alls)
          \<and> 0 < vectMag c \<longrightarrow> (\<exists>r. station_distances beg cs = Inr r))"
proof -
  from i have ne: "rad_cpa_list \<noteq> []" by auto
  have b: "beg_cpa \<noteq> None"
  proof
    assume "beg_cpa = None"
    with ret ne show False by (simp add: station_distances_None)
  qed
  then obtain b' where b': "beg_cpa = Some b'" by auto
  from ret have lv: "length_v = map (\<lambda>c. vectMag (vsub (rad_cpa_list ! 0) c)) rad_cpa_list"
    unfolding b' station_distances_Some by simp
  have n: "length length_v = length rad_cpa_list" by (simp add: lv)
  have e: "length_v ! i = vectMag (vsub (rad_cpa_list ! 0) (rad_cpa_list ! i))"
    using i by (simp add: lv)
  have z: "length_v ! 0 = 0" using ne by (simp add: lv vectMag_self)
  have t: "\<forall>b cs. \<exists>r. station_distances (Some b) cs = Inr r"
    by (simp add: station_distances_Some)
  have p: "\<exists>r. station_distances beg cs = Inr r"
    if "calc_projections tol sv rad se me = Inr (alls, beg)" "c \<in> set (concat alls)"
      "0 < vectMag c" for tol sv rad se me alls beg c cs
  proof -
    from begin_point_exists [OF that] obtain b where "beg = Some b" by auto
    then show ?thesis by (simp add: station_distances_Some)
  qed
  have nn: "0 \<le> length_v ! i" unfolding e by (rule vectMag_nonneg)
  from b n e nn z t p show ?thesis by blast
qed

lemma sqrt9: "sqrt 9 = 3"
  using real_sqrt_abs [of 3] by simp

lemma sqrt16: "sqrt 16 = 4"
  using real_sqrt_abs [of 4] by simp

theorem along_track_length_witness:
  "station_distances (Some (4, 0, 0)) [(0, 0, 0), (3, 0, 0), (1, 0, 0)]
     = Inr ([0, 3, 1], [4, 1, 3])
   \<and> (1::nat) < length [(0::real, 0::real, 0::real), (3, 0, 0), (1, 0, 0)]
   \<and> [0, 3, 1::real] ! 1 = vectMag (vsub (0, 0, 0) (3, 0, 0))
   \<and> \<not> [0, 3, 1::real] ! 1 \<le> [0, 3, 1::real] ! 2"
proof -
  have s: "station_distances (Some (4, 0, 0)) [(0, 0, 0), (3, 0, 0), (1, 0, 0)]
     = Inr ([0, 3, 1], [4, 1, 3])"
    by (simp add: station_distances_def vectMag_def vsub_def vdot_def sqrt9 sqrt16)
  have "(1::nat) < length [(0::real, 0::real, 0::real), (3, 0, 0), (1, 0, 0)]" by simp
  from along_track_length [OF s this] have
    "[0, 3, 1::real] ! 1 = vectMag (vsub ([(0, 0, 0), (3, 0, 0), (1, 0, 0)] ! 0)
        ([(0, 0, 0), (3, 0, 0), (1, 0, 0)] ! 1))" by blast
  with s show ?thesis by simp
qed

subsection \<open>Degenerate geometry\<close>

lemma cauchy_schwarz3: "vdot u v * vdot u v \<le> vdot u u * vdot v v"
proof -
  obtain u1 u2 u3 where u: "u = (u1, u2, u3)" by (cases u) auto
  obtain v1 v2 v3 where v: "v = (v1, v2, v3)" by (cases v) auto
  have "vdot u u * vdot v v - vdot u v * vdot u v =
        (u1 * v2 - u2 * v1)\<^sup>2 + (u1 * v3 - u3 * v1)\<^sup>2 + (u2 * v3 - u3 * v2)\<^sup>2"
    by (simp add: u v vdot_def power2_eq_square algebra_simps)
  moreover have "0 \<le> (u1 * v2 - u2 * v1)\<^sup>2 + (u1 * v3 - u3 * v1)\<^sup>2 + (u2 * v3 - u3 * v2)\<^sup>2"
    by simp
  ultimately show ?thesis by linarith
qed

lemma findClosestPoints_degenerate:
  assumes "vdot u u = 1" "vdot v v = 1" "1 - (vdot u v)\<^sup>2 \<le> tol"
  shows "findClosestPoints tol P u Q v = Inl DegenerateGeometry"
proof -
  have "0 \<le> vdot u u * vdot v v - vdot u v * vdot u v"
    using cauchy_schwarz3 [of u v] by simp
  then have "\<bar>vdot u u * vdot v v - vdot u v * vdot u v\<bar> \<le> tol"
    using assms by (simp add: power2_eq_square)
  then show ?thesis by (simp add: findClosestPoints_def Let_def)
qed

lemma findClosestPoints_error:
  "findClosestPoints tol P u Q v = Inl e \<Longrightarrow> e = DegenerateGeometry"
  by (auto simp: findClosestPoints_def Let_def split: if_splits)

lemma findClosestPoints_guarded:
  "findClosestPoints tol P u Q v = Inr r \<Longrightarrow>
   tol < \<bar>vdot u u * vdot v v - vdot u v * vdot u v\<bar>"
  by (auto simp: findClosestPoints_def Let_def split: if_splits)

lemma project_station_error:
  "project_station tol sv rad st los = Inl e \<Longrightarrow> e = DegenerateGeometry"
proof (induction los arbitrary: st)
  case Nil
  then show ?case by simp
next
  case (Cons a los)
  obtain stat meas where a: "a = (stat, meas)" by (cases a) auto
  from Cons.prems Cons.IH show ?case
    unfolding a
    by (auto simp: Let_def split: sum.splits prod.splits dest: findClosestPoints_error)
qed

lemma project_station_degenerate:
  assumes "(stat, meas) \<in> set los"
    and "findClosestPoints tol stat meas sv rad = Inl DegenerateGeometry"
  shows "project_station tol sv rad st los = Inl DegenerateGeometry"
  using assms
proof (induction los arbitrary: st)
  case Nil
  then show ?case by simp
next
  case (Cons a los)
  obtain stat' meas' where a: "a = (stat', meas')" by (cases a) auto
  show ?case
  proof (cases "findClosestPoints tol stat' meas' sv rad")
    case (Inl e)
    then have "e = DegenerateGeometry" by (rule findClosestPoints_error)
    with Inl show ?thesis by (simp add: a)
  next
    case (Inr r)
    with Cons.prems a have "(stat, meas) \<in> set los" by auto
    from Cons.IH [OF this Cons.prems(2)] Inr show ?thesis
      by (simp add: a Let_def split: prod.splits)
  qed
qed

text \<open>
  C9: for unit direction vectors, a line of sight whose dot product with the radiant
  direction is 1 within the tolerance (\<open>1 \<minus> (meas \<cdot> radiant)\<^sup>2 \<le> tol\<close>) makes the
  projection of that point fail with \<open>DegenerateGeometry\<close>, and the loop over the station's
  lines of sight, which catches nothing, fails with it; a projection that returns a
  coordinate has a denominator above the tolerance.
\<close>

theorem parallel_line_of_sight_degenerate:
  assumes "vdot meas meas = 1" "vdot radiant_eci radiant_eci = 1"
    and "1 - (vdot meas radiant_eci)\<^sup>2 \<le> tol"
    and "(stat, meas) \<in> set los"
  shows "findClosestPoints tol stat meas state_vect radiant_eci = Inl DegenerateGeometry
    \<and> project_station tol state_vect radiant_eci st los = Inl DegenerateGeometry
    \<and> (\<forall>P u Q v r. findClosestPoints tol P u Q v = Inr r \<longrightarrow>
          tol < \<bar>vdot u u * vdot v v - vdot u v * vdot u v\<bar>)"
proof -
  have d: "findClosestPoints tol stat meas state_vect radiant_eci = Inl DegenerateGeometry"
    using assms(1-3) by (rule findClosestPoints_degenerate)
  from project_station_degenerate [OF assms(4) d] d findClosestPoints_guarded
  show ?thesis by blast
qed

theorem parallel_line_of_sight_degenerate_witness:
  "project_station (1 / 1000000) (0, 1, 0) (1, 0, 0) (0, None)
     [((0, 0, 5), (0, 0, 1)), ((0, 0, 0), (1, 0, 0))] = Inl DegenerateGeometry
   \<and> findClosestPoints (1 / 1000000) (0, 0, 5) (0, 0, 1) (0, 1, 0) (1, 0, 0)
       = Inr ((0, 0, 0), (0, 1, 0), 1)"
proof -
  have "project_station (1 / 1000000) (0, 1, 0) (1, 0, 0) (0, None)
     [((0, 0, 5), (0, 0, 1)), ((0, 0, 0), (1, 0, 0))] = Inl DegenerateGeometry"
    using parallel_line_of_sight_degenerate [of "(1, 0, 0)" "(1, 0, 0)" "1 / 1000000" "(0, 0, 0)"
      "[((0, 0, 5), (0, 0, 1)), ((0, 0, 0), (1, 0, 0))]" "(0, 1, 0)" "(0, None)"]
    by (simp add: vdot_def)
  moreover have "findClosestPoints (1 / 1000000) (0, 0, 5) (0, 0, 1) (0, 1, 0) (1, 0, 0)
       = Inr ((0, 0, 0), (0, 1, 0), 1)"
    by (simp add: findClosestPoints_def vdot_def vsub_def vadd_def vscale_def vectMag_def)
  ultimately show ?thesis by simp
qed

subsection \<open>Pickling leaves the object as it was\<close>

lemma backup_restore:
  assumes "\<forall>v. self attr = Some v \<longrightarrow> py_truth v"
  shows "restore_attr attr (fst (backup_and_remove attr self)) (snd (backup_and_remove attr self)) = self"
proof (cases "self attr")
  case None
  then have "self(attr := None) = self" by (intro ext) simp
  with None show ?thesis by (simp add: backup_and_remove_def restore_attr_def)
next
  case (Some v)
  with assms have "py_truth v" by simp
  with Some show ?thesis
    by (auto simp: backup_and_remove_def restore_attr_def)
qed

lemma backup_removed: "snd (backup_and_remove attr self) = self(attr := None)"
  by (cases "self attr") (auto simp: backup_and_remove_def intro!: ext)

lemma restore_commute:
  "a \<noteq> b \<Longrightarrow> restore_attr a x (self(b := None)) = (restore_attr a x self)(b := None)"
  by (auto simp: restore_attr_def)

text \<open>
  C10: the class binds \<open>traj_lib\<close> only to the loaded library (line 645) and \<open>traj\<close> only
  to a ctypes structure (line 707), objects that count as true, or deletes both (lines
  1569--1570); so each of the two attributes, if present, counts as true. On such an
  object, whenever the inner \<open>savePickle\<close> returns, the method returns with the object
  exactly as it was before the call: every attribute is present as before and bound to the
  same value. The only other effect is that of the inner \<open>savePickle\<close> on the object
  without the two attributes.
\<close>

theorem savePickle_restores_object:
  assumes lib: "\<forall>v. self ''traj_lib'' = Some v \<longrightarrow> py_truth v"
    and traj: "\<forall>v. self ''traj'' = Some v \<longrightarrow> py_truth v"
    and ok: "savePickle mkdirP path_join pickle_dump (self(''traj_lib'' := None, ''traj'' := None))
               dir_path file_name w = (None, w')"
  shows "GuralTrajectory_savePickle mkdirP path_join pickle_dump self dir_path file_name w
           = (None, self, w')"
proof -
  obtain b1 s1 where 1: "backup_and_remove ''traj_lib'' self = (b1, s1)" by fastforce
  obtain b2 s2 where 2: "backup_and_remove ''traj'' s1 = (b2, s2)" by fastforce
  have s1: "s1 = self(''traj_lib'' := None)" using backup_removed [of "''traj_lib''" self] 1 by simp
  have s2: "s2 = self(''traj_lib'' := None, ''traj'' := None)"
    using backup_removed [of "''traj''" s1] 2 s1 by simp
  have r1: "restore_attr ''traj_lib'' b1 s1 = self"
    using backup_restore [of self "''traj_lib''", OF lib] 1 by simp
  have "restore_attr ''traj_lib'' b1 s2 = (restore_attr ''traj_lib'' b1 s1)(''traj'' := None)"
    unfolding s2 s1 [symmetric] by (rule restore_commute) simp
  then have r3: "restore_attr ''traj_lib'' b1 s2 = self(''traj'' := None)" by (simp add: r1)
  have b2: "b2 = fst (backup_and_remove ''traj'' self)"
    using 2 by (auto simp: backup_and_remove_def s1 split: option.splits)
  have "restore_attr ''traj'' b2 (self(''traj'' := None)) = self"
    using backup_restore [of self "''traj''", OF traj] unfolding b2 backup_removed by simp
  then have fin: "restore_attr ''traj'' b2 (restore_attr ''traj_lib'' b1 s2) = self"
    by (simp add: r3)
  show ?thesis
    using ok by (simp add: GuralTrajectory_savePickle_def 1 2 s2 [symmetric] fin)
qed

theorem savePickle_restores_object_witness:
  "GuralTrajectory_savePickle (\<lambda>d w. (None, w)) (\<lambda>d f. d @ f) (\<lambda>p obj w. (None, p # w))
     [''traj'' \<mapsto> PyObject 1, ''traj_lib'' \<mapsto> PyObject 2, ''vbegin'' \<mapsto> PyInt 17]
     ''out/'' ''t.pickle'' []
   = (None, [''traj'' \<mapsto> PyObject 1, ''traj_lib'' \<mapsto> PyObject 2, ''vbegin'' \<mapsto> PyInt 17],
      [''out/t.pickle''])"
  using savePickle_restores_object [of
      "[''traj'' \<mapsto> PyObject 1, ''traj_lib'' \<mapsto> PyObject 2, ''vbegin'' \<mapsto> PyInt 17]"
      "\<lambda>d w. (None, w)" "\<lambda>d f. d @ f" "\<lambda>p obj w. (None, p # w)" "''out/''" "''t.pickle''"
      "[]" "[''out/t.pickle'']"]
  by (simp add: savePickle_def)

subsection \<open>First-half-average begin velocity\<close>

lemma enumerate_filter_nths_gen:
  "map snd (filter (\<lambda>(i, x). i \<in> A) (enumerate n xs)) = nths xs {j. j + n \<in> A}"
proof (induction xs arbitrary: n)
  case Nil
  then show ?case by simp
next
  case (Cons x xs)
  show ?case by (simp add: Cons.IH nths_Cons)
qed

lemma enumerate_filter_nths:
  "map snd (filter (\<lambda>(i, x). i \<in> A) (enumerate 0 xs)) = nths xs A"
  by (simp add: enumerate_filter_nths_gen)

lemma use_indices_exclude:
  assumes "3 \<le> N" "1 \<le> i" "i \<le> N"
  shows "fha_use_indices N i = filter (\<lambda>k. k \<noteq> i - 1) [0..<N]"
proof -
  have a: "[0..<N] = [0..<i - 1] @ [i - 1..<N]"
    using upt_add_eq_append [of 0 "i - 1" "N - (i - 1)"] assms by simp
  have b: "[i - 1..<N] = (i - 1) # [i..<N]"
    using upt_conv_Cons [of "i - 1" N] assms by simp
  have s: "[0..<N] = [0..<i - 1] @ [i - 1] @ [i..<N]"
    using a b by simp
  have "filter (\<lambda>k. k \<noteq> i - 1) [0..<N] = [0..<i - 1] @ [i..<N]"
  proof -
    have "filter (\<lambda>k. k \<noteq> i - 1) [0..<i - 1] = [0..<i - 1]"
      by (rule filter_True) simp
    moreover have "filter (\<lambda>k. k \<noteq> i - 1) [i..<N] = [i..<N]"
      using assms by (intro filter_True) auto
    ultimately show ?thesis by (subst s) simp
  qed
  moreover have "fha_use_indices N i = [0..<i - 1] @ [i..<N]"
    using assms by (simp add: fha_use_indices_def Let_def)
  ultimately show ?thesis by simp
qed

lemma take_drop_sorted_le:
  assumes "sorted (map f xs)"
  shows "\<forall>a\<in>set (take h xs). \<forall>b\<in>set (drop h xs). f a \<le> (f b :: real)"
proof -
  from assms have "sorted (map f (take h xs) @ map f (drop h xs))"
    by (simp flip: map_append)
  then show ?thesis by (auto simp: sorted_append)
qed

lemma mset_perm_nth:
  assumes "mset order = mset [0..<length xs]"
  shows "mset (map (\<lambda>j. xs ! j) order) = mset xs"
  by (metis mset_map map_nth assms)


lemma fha_first_half_sorted:
  assumes len: "length (concat (nths ts (set use))) = length (concat (nths svd (set use)))"
    and pooled: "pooled = zip (concat (nths ts (set use))) (concat (nths svd (set use)))"
    and ok: "argsort_ok argsort (map fst pooled)"
  shows "\<exists>half rest. fha_first_half argsort ts svd use = Inr half
     \<and> mset (half @ rest) = mset pooled
     \<and> length half = length pooled div 2
     \<and> sorted (map fst half)
     \<and> (\<forall>a\<in>set half. \<forall>b\<in>set rest. fst a \<le> fst b)"
proof -
  define order where "order = argsort (map fst pooled)"
  define arr where "arr = map (\<lambda>j. pooled ! j) order"
  have m: "mset order = mset [0..<length pooled]"
    using ok by (simp add: argsort_ok_def order_def)
  have so: "sorted (map (\<lambda>j. map fst pooled ! j) order)"
    using ok by (simp add: argsort_ok_def order_def)
  have st: "set order = {0..<length pooled}"
    using mset_eq_setD [OF m] by simp
  have lo: "length order = length pooled"
    using mset_eq_length [OF m] by simp
  have la: "list_all (\<lambda>j. j < length pooled) order"
    using st by (simp add: list_all_iff)
  have "map fst arr = map (\<lambda>j. map fst pooled ! j) order"
    unfolding arr_def using st by auto
  with so have sa: "sorted (map fst arr)" by simp
  have ma: "mset arr = mset pooled"
    unfolding arr_def using m by (rule mset_perm_nth)
  have lar: "length arr = length pooled" by (simp add: arr_def lo)
  have r: "fha_first_half argsort ts svd use = Inr (take (length arr div 2) arr)"
    using len la
    by (simp add: fha_first_half_def Let_def enumerate_filter_nths pooled [symmetric]
        order_def [symmetric] arr_def [symmetric])
  let ?half = "take (length arr div 2) arr"
  let ?rest = "drop (length arr div 2) arr"
  have 1: "mset (?half @ ?rest) = mset pooled" using ma by simp
  have 2: "length ?half = length pooled div 2" by (simp add: lar)
  have 3: "sorted (map fst ?half)" using sa by (simp add: take_map [symmetric] sorted_wrt_take)
  have 4: "\<forall>a\<in>set ?half. \<forall>b\<in>set ?rest. fst a \<le> fst b"
    using sa by (rule take_drop_sorted_le)
  from r 1 2 3 4 show ?thesis by blast
qed


lemma fha_loop_two:
  "fha_loop cf srt 2 ts svd best (i # rest) =
     (case fha_candidate cf srt 2 ts svd i of
        Inl e \<Rightarrow> Inl e
      | Inr (popt, sd) \<Rightarrow> Inr (if stddev_less sd (fst best) then (sd, Some popt) else best))"
  by (simp add: Let_def split: sum.splits prod.splits)

lemma stddev_less_Some:
  "stddev_less sd best = (\<exists>a. sd = Some a \<and> (\<forall>b. best = Some b \<longrightarrow> a < b))"
  by (auto simp: stddev_less_def split: option.splits)

lemma fha_loop_inv:
  assumes "fha_loop cf srt N ts svd best cands = Inr best'"
    and "tried = (if N = 2 then take 1 cands else cands)"
  shows "(\<forall>i\<in>set tried. \<exists>r. fha_candidate cf srt N ts svd i = Inr r)
    \<and> (best' = best \<or> (\<exists>i\<in>set tried. \<exists>popt sd.
          fha_candidate cf srt N ts svd i = Inr (popt, Some sd) \<and> best' = (Some sd, Some popt)))
    \<and> (\<forall>i\<in>set tried. \<forall>popt sd. fha_candidate cf srt N ts svd i = Inr (popt, Some sd)
          \<longrightarrow> (\<exists>b. fst best' = Some b \<and> b \<le> sd))
    \<and> (\<forall>b. fst best = Some b \<longrightarrow> (\<exists>b'. fst best' = Some b' \<and> b' \<le> b))"
  using assms
proof (induction cands arbitrary: best tried)
  case Nil
  then show ?case by simp
next
  case (Cons i cands)
  from Cons.prems(1) obtain popt sd where c: "fha_candidate cf srt N ts svd i = Inr (popt, sd)"
    by (auto split: sum.splits)
  define best1 where "best1 = (if stddev_less sd (fst best) then (sd, Some popt) else best)"
  define T where "T = (if N = 2 then [] else cands)"
  have tr: "set tried = insert i (set T)"
    by (simp add: Cons.prems(2) T_def)
  have ih: "(\<forall>j\<in>set T. \<exists>r. fha_candidate cf srt N ts svd j = Inr r)
    \<and> (best' = best1 \<or> (\<exists>j\<in>set T. \<exists>popt sd.
          fha_candidate cf srt N ts svd j = Inr (popt, Some sd) \<and> best' = (Some sd, Some popt)))
    \<and> (\<forall>j\<in>set T. \<forall>popt sd. fha_candidate cf srt N ts svd j = Inr (popt, Some sd)
          \<longrightarrow> (\<exists>b. fst best' = Some b \<and> b \<le> sd))
    \<and> (\<forall>b. fst best1 = Some b \<longrightarrow> (\<exists>b'. fst best' = Some b' \<and> b' \<le> b))"
  proof (cases "N = 2")
    case True
    with Cons.prems(1) c have "best' = best1" by (simp add: best1_def Let_def)
    with True show ?thesis by (simp add: T_def)
  next
    case False
    with Cons.prems(1) c have l: "fha_loop cf srt N ts svd best1 cands = Inr best'"
      by (simp add: best1_def Let_def)
    from False have "T = (if N = 2 then take 1 cands else cands)" by (simp add: T_def)
    from Cons.IH [OF l this] show ?thesis .
  qed
  from ih have ih1: "\<forall>j\<in>set T. \<exists>r. fha_candidate cf srt N ts svd j = Inr r" by blast
  from ih have ih2: "best' = best1 \<or> (\<exists>j\<in>set T. \<exists>popt sd.
          fha_candidate cf srt N ts svd j = Inr (popt, Some sd) \<and> best' = (Some sd, Some popt))"
    by blast
  from ih have ih3: "\<forall>j\<in>set T. \<forall>popt sd. fha_candidate cf srt N ts svd j = Inr (popt, Some sd)
          \<longrightarrow> (\<exists>b. fst best' = Some b \<and> b \<le> sd)" by blast
  from ih have ih4: "\<forall>b. fst best1 = Some b \<longrightarrow> (\<exists>b'. fst best' = Some b' \<and> b' \<le> b)" by blast
  have p1: "\<forall>j\<in>set tried. \<exists>r. fha_candidate cf srt N ts svd j = Inr r"
    using c ih1 tr by auto
  have b1: "best1 = best \<or> (\<exists>a. sd = Some a \<and> best1 = (Some a, Some popt))"
    by (auto simp: best1_def stddev_less_Some)
  have p2: "best' = best \<or> (\<exists>j\<in>set tried. \<exists>popt sd.
          fha_candidate cf srt N ts svd j = Inr (popt, Some sd) \<and> best' = (Some sd, Some popt))"
    using ih2 b1 c tr by auto
  have p4: "\<forall>b. fst best = Some b \<longrightarrow> (\<exists>b'. fst best' = Some b' \<and> b' \<le> b)"
  proof (intro allI impI)
    fix b assume b: "fst best = Some b"
    show "\<exists>b'. fst best' = Some b' \<and> b' \<le> b"
    proof (cases "stddev_less sd (fst best)")
      case True
      then obtain a where a: "sd = Some a" "a < b" using b by (auto simp: stddev_less_Some)
      with True have "fst best1 = Some a" by (simp add: best1_def)
      with ih4 obtain b' where "fst best' = Some b'" "b' \<le> a" by blast
      with a show ?thesis by auto
    next
      case False
      then have "best1 = best" by (simp add: best1_def)
      with ih4 b show ?thesis by simp
    qed
  qed
  have p3i: "\<exists>b. fst best' = Some b \<and> b \<le> a" if "sd = Some a" for a
  proof (cases "stddev_less sd (fst best)")
    case True
    then have "fst best1 = Some a" using that by (simp add: best1_def)
    with ih4 show ?thesis by blast
  next
    case False
    with that obtain b where b: "fst best = Some b" "b \<le> a"
      by (auto simp: stddev_less_Some not_less)
    with p4 obtain b' where "fst best' = Some b'" "b' \<le> b" by blast
    with b show ?thesis by auto
  qed
  have p3: "\<forall>j\<in>set tried. \<forall>popt sd. fha_candidate cf srt N ts svd j = Inr (popt, Some sd)
          \<longrightarrow> (\<exists>b. fst best' = Some b \<and> b \<le> sd)"
    using ih3 p3i c tr by auto
  from p1 p2 p3 p4 show ?case by blast
qed

lemma fha_loop_total:
  assumes "\<forall>i\<in>set cands. \<exists>r. fha_candidate cf srt N ts svd i = Inr r"
  shows "\<exists>best'. fha_loop cf srt N ts svd best cands = Inr best'"
  using assms
proof (induction cands arbitrary: best)
  case Nil
  then show ?case by simp
next
  case (Cons i cands)
  then obtain popt sd where c: "fha_candidate cf srt N ts svd i = Inr (popt, sd)" by fastforce
  from Cons.prems have "\<forall>j\<in>set cands. \<exists>r. fha_candidate cf srt N ts svd j = Inr r" by simp
  from Cons.IH [OF this] show ?case by (simp add: c Let_def)
qed


lemma fha_loop_total_two:
  assumes "fha_candidate cf srt 2 ts svd i = Inr r"
  shows "\<exists>best'. fha_loop cf srt 2 ts svd best (i # rest) = Inr best'"
  using assms by (cases r) (simp add: Let_def)

lemma upt_1_3: "[1..<(2::nat) + 1] = [1, 2]"
  by (simp add: upt_rec)

lemma tried_two: "(if (2::nat) = 2 then take 1 [1..<2 + 1] else [1..<2 + 1]) = [1::nat]"
  by (simp only: upt_1_3) simp

lemma fha_candidate_variance:
  assumes "fha_candidate cf srt N ts svd i = Inr (popt, Some sd)"
  shows "\<exists>half var. fha_first_half srt ts svd (fha_use_indices N i) = Inr half
     \<and> cf (map fst half) (map snd half) = Inr (popt, Some var) \<and> 0 \<le> var \<and> sd = sqrt var"
  using assms
  by (auto simp: fha_candidate_def intercept_stddev_of_def split: sum.splits option.splits if_splits)

lemma fha_candidate_of_fit:
  assumes "fha_first_half srt ts svd (fha_use_indices N i) = Inr half"
    and "cf (map fst half) (map snd half) = Inr (popt, Some var)" "0 \<le> var"
  shows "fha_candidate cf srt N ts svd i = Inr (popt, Some (sqrt var))"
  using assms by (simp add: fha_candidate_def intercept_stddev_of_def)

lemma fha_select:
  assumes v: "fha_vbegin cf srt N ts svd = Inr v"
    and tried: "tried = (if N = 2 then [1] else [1..<N + 1])"
  shows "\<exists>i\<in>set tried. \<exists>m k sd. fha_candidate cf srt N ts svd i = Inr ((m, k), Some sd)
      \<and> v = m / 1000
      \<and> (\<forall>j\<in>set tried. \<forall>p sd'. fha_candidate cf srt N ts svd j = Inr (p, Some sd') \<longrightarrow> sd \<le> sd')"
proof -
  from v obtain bs sol where l: "fha_loop cf srt N ts svd (None, None) [1..<N + 1] = Inr (bs, Some sol)"
    and vs: "v = fst sol / 1000"
    by (auto simp: fha_vbegin_def split: sum.splits prod.splits option.splits)
  have t: "tried = (if N = 2 then take 1 [1..<N + 1] else [1..<N + 1])"
    using tried tried_two by auto
  note inv = fha_loop_inv [OF l t]
  from inv have "(bs, Some sol) = (None, None) \<or> (\<exists>i\<in>set tried. \<exists>popt sd.
          fha_candidate cf srt N ts svd i = Inr (popt, Some sd) \<and> (bs, Some sol) = (Some sd, Some popt))"
    by blast
  then obtain i sd where i: "i \<in> set tried" "fha_candidate cf srt N ts svd i = Inr (sol, Some sd)"
    "bs = Some sd" by auto
  from inv have "\<forall>j\<in>set tried. \<forall>p sd'. fha_candidate cf srt N ts svd j = Inr (p, Some sd')
          \<longrightarrow> (\<exists>b. fst (bs, Some sol) = Some b \<and> b \<le> sd')" by blast
  with i(3) have le: "\<forall>j\<in>set tried. \<forall>p sd'. fha_candidate cf srt N ts svd j = Inr (p, Some sd')
          \<longrightarrow> sd \<le> sd'" by auto
  obtain m k where sol: "sol = (m, k)" by (cases sol) auto
  from i(1) i(2) vs le show ?thesis unfolding sol by auto
qed

lemma fha_returns:
  assumes all: "\<forall>i\<in>set tried. \<exists>r. fha_candidate cf srt N ts svd i = Inr r"
    and some: "\<exists>i\<in>set tried. \<exists>p sd. fha_candidate cf srt N ts svd i = Inr (p, Some sd)"
    and tried: "tried = (if N = 2 then [1] else [1..<N + 1])"
  shows "\<exists>v. fha_vbegin cf srt N ts svd = Inr v"
proof -
  have "\<exists>best'. fha_loop cf srt N ts svd (None, None) [1..<N + 1] = Inr best'"
  proof (cases "N = 2")
    case True
    with all tried obtain r where c: "fha_candidate cf srt 2 ts svd 1 = Inr r" by auto
    show ?thesis unfolding True upt_1_3 by (rule fha_loop_total_two [OF c])
  next
    case False
    with all tried show ?thesis by (intro fha_loop_total) simp
  qed
  then obtain best' where l: "fha_loop cf srt N ts svd (None, None) [1..<N + 1] = Inr best'" by blast
  have t: "tried = (if N = 2 then take 1 [1..<N + 1] else [1..<N + 1])"
    using tried tried_two by auto
  note inv = fha_loop_inv [OF l t]
  from some obtain i p sd where i: "i \<in> set tried" "fha_candidate cf srt N ts svd i = Inr (p, Some sd)"
    by blast
  with inv obtain b where b: "fst best' = Some b" by blast
  from inv have "best' = (None, None) \<or> (\<exists>i\<in>set tried. \<exists>popt sd.
          fha_candidate cf srt N ts svd i = Inr (popt, Some sd) \<and> best' = (Some sd, Some popt))"
    by blast
  with b obtain popt sd' where "best' = (Some sd', Some popt)" by auto
  with l have l': "fha_loop cf srt N ts svd (None, None) [1..<N + 1] = Inr (Some sd', Some popt)"
    by simp
  have "fha_vbegin cf srt N ts svd = Inr (fst popt / 1000)"
    unfolding fha_vbegin_def l' by simp
  then show ?thesis by blast
qed


lemma argsort_ok_sort_key:
  "argsort_ok (\<lambda>ks. map snd (sort_key fst (zip ks [0..<length ks]))) keys"
proof -
  let ?zs = "zip keys [0..<length keys]"
  have m: "mset (map snd (sort_key fst ?zs)) = mset [0..<length keys]"
  proof -
    have z: "map snd ?zs = [0..<length keys]" by (simp add: map_snd_zip)
    have "mset (map snd (sort_key fst ?zs)) = image_mset snd (mset (sort_key fst ?zs))"
      by (simp only: mset_map)
    also have "\<dots> = image_mset snd (mset ?zs)" by (simp only: mset_sort)
    also have "\<dots> = mset (map snd ?zs)" by (simp only: mset_map)
    finally show ?thesis by (simp only: z)
  qed
  have e: "keys ! snd p = fst p" if "p \<in> set (sort_key fst ?zs)" for p
  proof -
    from that have "p \<in> set ?zs" by simp
    then show ?thesis by (auto simp: set_zip)
  qed
  have "map (\<lambda>j. keys ! j) (map snd (sort_key fst ?zs)) = map (\<lambda>p. keys ! snd p) (sort_key fst ?zs)"
    by (simp only: map_map comp_def)
  also have "\<dots> = map fst (sort_key fst ?zs)"
    using e by (intro map_cong) auto
  finally have q: "map (\<lambda>j. keys ! j) (map snd (sort_key fst ?zs)) = map fst (sort_key fst ?zs)" .
  have "sorted (map fst (sort_key fst ?zs))" by (rule sorted_sort_key)
  then have s: "sorted (map (\<lambda>j. keys ! j) (map snd (sort_key fst ?zs)))"
    by (simp only: q)
  from m s show ?thesis by (simp add: argsort_ok_def)
qed

text \<open>
  C6: in first-half-average mode with \<open>N\<close> stations, the candidates tried are \<open>i = 1..N\<close>
  when \<open>N \<ge> 3\<close>, and candidate \<open>i\<close> uses every station but station \<open>i \<minus> 1\<close>; when
  \<open>N = 2\<close> the only candidate uses both stations. Every candidate pools the (time,
  state-vector distance) pairs of its stations, and what it fits is the first half of the
  pooled pairs in ascending order of time (every pair left out is no earlier than every
  pair fitted). The begin velocity is the slope, divided by 1000, of a candidate whose
  intercept variance is the lowest among the candidates with a finite variance; it is
  defined as soon as every candidate fit returns and one of them has a finite variance.
\<close>

theorem first_half_average_begin_velocity:
  assumes tried: "tried = (if N = 2 then [1] else [1..<N + 1])"
  shows "(3 \<le> N \<longrightarrow> tried = [1..<N + 1]
            \<and> (\<forall>i\<in>set tried. fha_use_indices N i = filter (\<lambda>k. k \<noteq> i - 1) [0..<N]))
    \<and> (N = 2 \<longrightarrow> tried = [1] \<and> fha_use_indices N 1 = [0, 1])
    \<and> (\<forall>i pooled.
          pooled = zip (concat (nths ts (set (fha_use_indices N i))))
                       (concat (nths svd (set (fha_use_indices N i))))
          \<and> length (concat (nths ts (set (fha_use_indices N i))))
              = length (concat (nths svd (set (fha_use_indices N i))))
          \<and> argsort_ok argsort (map fst pooled)
          \<longrightarrow> (\<exists>half rest. fha_first_half argsort ts svd (fha_use_indices N i) = Inr half
                 \<and> mset (half @ rest) = mset pooled
                 \<and> length half = length pooled div 2
                 \<and> sorted (map fst half)
                 \<and> (\<forall>a\<in>set half. \<forall>b\<in>set rest. fst a \<le> fst b)))
    \<and> (\<forall>v. fha_vbegin curve_fit argsort N ts svd = Inr v \<longrightarrow>
          (\<exists>i\<in>set tried. \<exists>half m k var.
              fha_first_half argsort ts svd (fha_use_indices N i) = Inr half
              \<and> curve_fit (map fst half) (map snd half) = Inr ((m, k), Some var)
              \<and> 0 \<le> var \<and> v = m / 1000
              \<and> (\<forall>j\<in>set tried. \<forall>half' p var'.
                    fha_first_half argsort ts svd (fha_use_indices N j) = Inr half'
                    \<and> curve_fit (map fst half') (map snd half') = Inr (p, Some var')
                    \<and> 0 \<le> var' \<longrightarrow> var \<le> var')))
    \<and> ((\<forall>i\<in>set tried. \<exists>r. fha_candidate curve_fit argsort N ts svd i = Inr r)
        \<and> (\<exists>i\<in>set tried. \<exists>p sd. fha_candidate curve_fit argsort N ts svd i = Inr (p, Some sd))
        \<longrightarrow> (\<exists>v. fha_vbegin curve_fit argsort N ts svd = Inr v))"
proof -
  have a1: "3 \<le> N \<longrightarrow> tried = [1..<N + 1]
            \<and> (\<forall>i\<in>set tried. fha_use_indices N i = filter (\<lambda>k. k \<noteq> i - 1) [0..<N])"
  proof
    assume n: "3 \<le> N"
    then have t: "tried = [1..<N + 1]" using tried by simp
    have "fha_use_indices N i = filter (\<lambda>k. k \<noteq> i - 1) [0..<N]" if "i \<in> set tried" for i
      using that n unfolding t by (intro use_indices_exclude) auto
    with t show "tried = [1..<N + 1]
            \<and> (\<forall>i\<in>set tried. fha_use_indices N i = filter (\<lambda>k. k \<noteq> i - 1) [0..<N])" by blast
  qed
  have a2: "N = 2 \<longrightarrow> tried = [1] \<and> fha_use_indices N 1 = [0, 1]"
  proof
    assume n: "N = 2"
    have "[0..<2] = [0, 1::nat]" by (simp add: upt_rec)
    with n tried show "tried = [1] \<and> fha_use_indices N 1 = [0, 1]"
      by (simp add: fha_use_indices_def)
  qed
  have c: "\<forall>i pooled.
          pooled = zip (concat (nths ts (set (fha_use_indices N i))))
                       (concat (nths svd (set (fha_use_indices N i))))
          \<and> length (concat (nths ts (set (fha_use_indices N i))))
              = length (concat (nths svd (set (fha_use_indices N i))))
          \<and> argsort_ok argsort (map fst pooled)
          \<longrightarrow> (\<exists>half rest. fha_first_half argsort ts svd (fha_use_indices N i) = Inr half
                 \<and> mset (half @ rest) = mset pooled
                 \<and> length half = length pooled div 2
                 \<and> sorted (map fst half)
                 \<and> (\<forall>a\<in>set half. \<forall>b\<in>set rest. fst a \<le> fst b))"
    using fha_first_half_sorted by blast
  have s: "\<exists>i\<in>set tried. \<exists>half m k var.
              fha_first_half argsort ts svd (fha_use_indices N i) = Inr half
              \<and> curve_fit (map fst half) (map snd half) = Inr ((m, k), Some var)
              \<and> 0 \<le> var \<and> v = m / 1000
              \<and> (\<forall>j\<in>set tried. \<forall>half' p var'.
                    fha_first_half argsort ts svd (fha_use_indices N j) = Inr half'
                    \<and> curve_fit (map fst half') (map snd half') = Inr (p, Some var')
                    \<and> 0 \<le> var' \<longrightarrow> var \<le> var')"
    if v: "fha_vbegin curve_fit argsort N ts svd = Inr v" for v
  proof -
    from fha_select [OF v tried] obtain i m k sd where i: "i \<in> set tried"
      and ci: "fha_candidate curve_fit argsort N ts svd i = Inr ((m, k), Some sd)"
      and vm: "v = m / 1000"
      and le: "\<forall>j\<in>set tried. \<forall>p sd'.
           fha_candidate curve_fit argsort N ts svd j = Inr (p, Some sd') \<longrightarrow> sd \<le> sd'"
      by blast
    from fha_candidate_variance [OF ci] obtain half var where
      h: "fha_first_half argsort ts svd (fha_use_indices N i) = Inr half"
      and f: "curve_fit (map fst half) (map snd half) = Inr ((m, k), Some var)"
      and nn: "0 \<le> var" and sd: "sd = sqrt var" by blast
    have "var \<le> var'"
      if j: "j \<in> set tried"
        and h': "fha_first_half argsort ts svd (fha_use_indices N j) = Inr half'"
        and f': "curve_fit (map fst half') (map snd half') = Inr (p, Some var')"
        and nn': "0 \<le> var'" for j half' p var'
    proof -
      from fha_candidate_of_fit [where cf = curve_fit, OF h' f' nn'] le j have "sd \<le> sqrt var'" by blast
      then show ?thesis by (simp add: sd)
    qed
    with i h f nn vm show ?thesis by blast
  qed
  have t: "(\<forall>i\<in>set tried. \<exists>r. fha_candidate curve_fit argsort N ts svd i = Inr r)
        \<and> (\<exists>i\<in>set tried. \<exists>p sd. fha_candidate curve_fit argsort N ts svd i = Inr (p, Some sd))
        \<longrightarrow> (\<exists>v. fha_vbegin curve_fit argsort N ts svd = Inr v)"
    using fha_returns [OF _ _ tried] by blast
  from a1 a2 c s t show ?thesis by blast
qed


lemma upt_0_3: "[0..<3] = [0, 1, 2::nat]"
  by (simp add: upt_rec)

lemma upt_1_4: "[1..<(3::nat) + 1] = [1, 2, 3]"
  by (simp add: upt_rec)

lemma upt_0_8: "[0..<8] = [0, 1, 2, 3, 4, 5, 6, 7::nat]"
  by (simp add: upt_rec)

theorem first_half_average_begin_velocity_witness:
  "fha_vbegin
     (\<lambda>xs ys. let m = (last ys - hd ys) / (last xs - hd xs); k = hd ys - m * hd xs
              in Inr ((m, k), Some (sum_list (map2 (\<lambda>x y. (y - (m * x + k))\<^sup>2) xs ys))))
     (\<lambda>ks. map snd (sort_key fst (zip ks [0..<length ks]))) 3
     [[0, 3, 6, 9], [1, 4, 7, 10], [2, 5, 8, 11]]
     [[0, 30, 60, 90], [10, 40, 70, 100], [40, 70, 100, 130]] = Inr (1 / 100)
   \<and> fha_use_indices 3 3 = [0, 1]
   \<and> fha_first_half (\<lambda>ks. map snd (sort_key fst (zip ks [0..<length ks])))
        [[0, 3, 6, 9], [1, 4, 7, 10], [2, 5, 8, 11]]
        [[0, 30, 60, 90], [10, 40, 70, 100], [40, 70, 100, 130]] [0, 1]
       = Inr [(0, 0), (1, 10), (3, 30), (4, 40)]"
proof -
  let ?cf = "\<lambda>xs ys. let m = (last ys - hd ys) / (last xs - hd xs); k = hd ys - m * hd xs
              in Inr ((m, k), Some (sum_list (map2 (\<lambda>x y. (y - (m * x + k))\<^sup>2) xs ys)))
              :: pyerror + ((real \<times> real) \<times> real option)"
  let ?srt = "\<lambda>ks :: real list. map snd (sort_key fst (zip ks [0..<length ks]))"
  let ?T = "[[0, 3, 6, 9], [1, 4, 7, 10], [2, 5, 8, 11 :: real]]"
  let ?S = "[[0, 30, 60, 90], [10, 40, 70, 100], [40, 70, 100, 130 :: real]]"
  have u1: "fha_use_indices 3 1 = [1, 2]"
    by (simp add: fha_use_indices_def upt_0_3)
  have u2: "fha_use_indices 3 2 = [0, 2]"
    by (simp add: fha_use_indices_def upt_0_3)
  have u3: "fha_use_indices 3 3 = [0, 1]"
    by (simp add: fha_use_indices_def upt_0_3)
  have h1: "fha_first_half ?srt ?T ?S [1, 2] = Inr [(1, 10), (2, 40), (4, 40), (5, 70)]"
    by (simp add: fha_first_half_def enumerate_eq_zip upt_0_3 upt_0_8)
  have h2: "fha_first_half ?srt ?T ?S [0, 2] = Inr [(0, 0), (2, 40), (3, 30), (5, 70)]"
    by (simp add: fha_first_half_def enumerate_eq_zip upt_0_3 upt_0_8)
  have h3: "fha_first_half ?srt ?T ?S [0, 1] = Inr [(0, 0), (1, 10), (3, 30), (4, 40)]"
    by (simp add: fha_first_half_def enumerate_eq_zip upt_0_3 upt_0_8)
  have c1: "fha_candidate ?cf ?srt 3 ?T ?S 1 = Inr ((15, -5), Some (sqrt 450))"
    unfolding fha_candidate_def u1 h1 by (simp add: intercept_stddev_of_def)
  have c2: "fha_candidate ?cf ?srt 3 ?T ?S 2 = Inr ((14, 0), Some (sqrt 288))"
    unfolding fha_candidate_def u2 h2 by (simp add: intercept_stddev_of_def)
  have c3: "fha_candidate ?cf ?srt 3 ?T ?S 3 = Inr ((10, 0), Some 0)"
    unfolding fha_candidate_def u3 h3 by (simp add: intercept_stddev_of_def)
  have l: "fha_loop ?cf ?srt 3 ?T ?S (None, None) [1, 2, 3] = Inr (Some 0, Some (10, 0))"
    unfolding fha_loop.simps c1 c2 c3 by (simp add: stddev_less_def)
  have v: "fha_vbegin ?cf ?srt 3 ?T ?S = Inr (1 / 100)"
    unfolding fha_vbegin_def upt_1_4 l by simp
  from first_half_average_begin_velocity [of "[1, 2, 3]" 3 ?T ?S ?srt ?cf] v u3 h3
  show ?thesis by simp
qed

end
